theory Spec2Isabelle
  imports Main
begin

section \<open>Data model of OverlapMesh.cpp\<close>

text \<open>
  The overlap-mesh construction works on three meshes: the first mesh, the second mesh
  and the overlap mesh under construction. The coordinates of a node are read by the
  geometric kernel only, so the node type stays a type variable \<open>'n\<close>. Node and face
  indices are C++ \<open>int\<close>s; they are modelled as unbounded \<open>int\<close>. An exception
  (\<open>_EXCEPTIONT\<close>) is the error \<open>EXCEPTION\<close> with its message, a vector read outside
  the vector (undefined behaviour in C++) is \<open>OutOfBounds\<close>, and the read of a variable
  never assigned is \<open>UninitializedRead\<close>.
\<close>

datatype error = EXCEPTION string | OutOfBounds | UninitializedRead

datatype Edge_Type = Type_GreatCircleArc | Type_ConstantLatitude

record Edge =
  node0 :: int
  node1 :: int
  type :: Edge_Type

record Face =
  edges :: "Edge list"

type_synonym FacePair = "int \<times> int"

record 'n Mesh =
  nodes :: "'n list"
  faces :: "Face list"
  edgemap :: "Edge \<Rightarrow> FacePair option"

datatype IntersectType = IntersectType_None | IntersectType_Edge | IntersectType_Node

record PathSegment = Edge +
  ixFirstFace :: int
  ixSecondFace :: int
  inttype :: IntersectType
  ixIntersect :: int
  edgeIntersect :: Edge

text \<open>
  Modelled from the spec: the placeholder \<open>InvalidNode\<close> of the node map is a constant
  of the mesh headers, which are not among the sources; it is the index no node has.
\<close>

definition InvalidNode :: int where
  "InvalidNode = - 1"

text \<open>Reading \<open>v[i]\<close> of a \<open>std::vector\<close> with an \<open>int\<close> index.\<close>

definition at :: "'a list \<Rightarrow> int \<Rightarrow> error + 'a" where
  "at v i = (if 0 \<le> i \<and> i < int (length v) then Inr (v ! nat i) else Inl OutOfBounds)"

section \<open>GenerateOverlapMesh: the node array and the node map (lines 959-993)\<close>

text \<open>
  Lines 980-985: every node of the second mesh is pushed; the test of the node map that
  follows the \<open>push_back\<close> ends the iteration either way.
\<close>

fun InsertSecondNodes :: "'n list \<Rightarrow> int list \<Rightarrow> nat \<Rightarrow> 'n list \<Rightarrow> error + 'n list" where
  "InsertSecondNodes [] vecSecondNodeMap i ovl = Inr ovl"
| "InsertSecondNodes (x # xs) vecSecondNodeMap i ovl =
     (let ovl' = ovl @ [x] in
      case at vecSecondNodeMap (int i) of
        Inl e \<Rightarrow> Inl e
      | Inr v \<Rightarrow>
          if v \<noteq> InvalidNode then InsertSecondNodes xs vecSecondNodeMap (Suc i) ovl'
          else InsertSecondNodes xs vecSecondNodeMap (Suc i) ovl')"

text \<open>Lines 989-993: a placeholder entry \<open>i\<close> becomes \<open>ixOverlapSecondNodesBegin + i\<close>.\<close>

fun BuildSecondNodeMap :: "int \<Rightarrow> nat \<Rightarrow> int list \<Rightarrow> int list" where
  "BuildSecondNodeMap ixOverlapSecondNodesBegin i [] = []"
| "BuildSecondNodeMap ixOverlapSecondNodesBegin i (v # vs) =
     (if v = InvalidNode then ixOverlapSecondNodesBegin + int i else v)
       # BuildSecondNodeMap ixOverlapSecondNodesBegin (Suc i) vs"

text \<open>
  Lines 959-993 as a whole. \<open>vecSecondNodeMap\<close> is what \<open>BuildCoincidentNodeVector\<close>
  (not among the sources) has returned: entry \<open>j\<close> is the index of the node of the first
  mesh that coincides with node \<open>j\<close> of the second mesh, or \<open>InvalidNode\<close>. The result
  is the node array of the overlap mesh and the resolved node map.
\<close>

definition InsertNodes :: "'n list \<Rightarrow> 'n list \<Rightarrow> int list \<Rightarrow> error + ('n list \<times> int list)" where
  "InsertNodes nodevecFirst nodevecSecond vecSecondNodeMap =
     (let ovl = [] @ nodevecFirst;
          ixOverlapSecondNodesBegin = int (length ovl)
      in case InsertSecondNodes nodevecSecond vecSecondNodeMap 0 ovl of
           Inl e \<Rightarrow> Inl e
         | Inr ovl' \<Rightarrow>
             Inr (ovl', BuildSecondNodeMap ixOverlapSecondNodesBegin 0 vecSecondNodeMap))"

section \<open>GenerateOverlapFaces: the face assembler (lines 630-949)\<close>

text \<open>
  Modelled from the spec: the equality of two edges (\<open>operator==\<close> of \<open>Edge\<close>, declared
  with the mesh classes, which are not among the sources) is undirected edge identity,
  \<open>(a,b) \<equiv> (b,a)\<close>.
\<close>

definition Edge_eq :: "Edge \<Rightarrow> Edge \<Rightarrow> bool" where
  "Edge_eq e g =
     ((node0 e = node0 g \<and> node1 e = node1 g) \<or> (node0 e = node1 g \<and> node1 e = node0 g))"

text \<open>
  Modelled from the spec: \<open>face[i]\<close> (\<open>operator[]\<close> of \<open>Face\<close>, not among the sources) is
  vertex \<open>i\<close> of the face, the first node of its edge \<open>i\<close>.
\<close>

definition FaceNode :: "Face \<Rightarrow> int \<Rightarrow> error + int" where
  "FaceNode face i = (case at (edges face) i of Inl err \<Rightarrow> Inl err | Inr e \<Rightarrow> Inr (node0 e))"

text \<open>
  \<open>std::set<int>\<close>: a sorted list without repetition; \<open>insert\<close> keeps one copy,
  \<open>erase\<close> removes the element, iteration runs in ascending order.
\<close>

definition set_insert :: "int \<Rightarrow> int list \<Rightarrow> int list" where
  "set_insert x s = (if x \<in> set s then s else insort x s)"

definition set_erase :: "int \<Rightarrow> int list \<Rightarrow> int list" where
  "set_erase x s = removeAll x s"

text \<open>Lines 680-702: the run along the edge of the first face.\<close>

datatype PhaseA_exit = FoundBranch | HitOrigin

function PhaseA ::
  "PathSegment list \<Rightarrow> int \<Rightarrow> nat \<Rightarrow> Edge list \<Rightarrow> bool list
     \<Rightarrow> error + (PhaseA_exit \<times> nat \<times> Edge list \<times> bool list)" where
  "PhaseA vecTracedPath ixOverlapOriginNode j faceOverlap vecTracedPathUsed =
     (if j < length vecTracedPath \<and> j < length vecTracedPathUsed then
        let faceOverlap' = faceOverlap @ [Edge.truncate (vecTracedPath ! j)] in
        if vecTracedPathUsed ! j then Inl (EXCEPTION ''Trying to reuse traced path edge'')
        else
          let vecTracedPathUsed' = vecTracedPathUsed[j := True] in
          if inttype (vecTracedPath ! j) \<noteq> IntersectType_None then
            Inr (FoundBranch, j, faceOverlap', vecTracedPathUsed')
          else if node1 (vecTracedPath ! j) = ixOverlapOriginNode then
            Inr (HitOrigin, j, faceOverlap', vecTracedPathUsed')
          else
            PhaseA vecTracedPath ixOverlapOriginNode (Suc j) faceOverlap' vecTracedPathUsed'
      else Inl OutOfBounds)"
  by pat_completeness auto
termination
  by (relation "measure (\<lambda>(p, n, j, f, u). length p - j)") auto

declare PhaseA.simps [simp del]

text \<open>
  Lines 740-778: the search for the path segment through which the current edge of the
  second face leaves onto the first face. \<open>k\<close> walks cyclically from \<open>j + 1\<close> back to
  \<open>j\<close>, that is through \<open>j + 1, ..., n - 1, 0, ..., j - 1\<close>; the result is
  \<open>ixExitNode\<close> and the final \<open>k\<close> (\<open>InvalidNode\<close> and \<open>j\<close> when nothing is found).
  The local \<open>ixIntersectNode\<close> of lines 745-746 is read from the current face at each
  step and never used.
\<close>

fun FindExitNode ::
  "int list \<Rightarrow> PathSegment list \<Rightarrow> Face \<Rightarrow> Edge \<Rightarrow> int \<Rightarrow> nat \<Rightarrow> nat list
     \<Rightarrow> error + (int \<times> nat)" where
  "FindExitNode vecSecondNodeMap vecTracedPath faceSecondCurrent edgeSecondCurrent
      ixCurrentOverlapNode j [] =
     Inr (InvalidNode, j)"
| "FindExitNode vecSecondNodeMap vecTracedPath faceSecondCurrent edgeSecondCurrent
      ixCurrentOverlapNode j (k # ks) =
     (case at vecTracedPath (int k) of
        Inl err \<Rightarrow> Inl err
      | Inr seg \<Rightarrow>
     (case FaceNode faceSecondCurrent (ixIntersect seg) of
        Inl err \<Rightarrow> Inl err
      | Inr ixIntersectNode \<Rightarrow>
          if ixCurrentOverlapNode = node1 seg then
            FindExitNode vecSecondNodeMap vecTracedPath faceSecondCurrent edgeSecondCurrent
              ixCurrentOverlapNode j ks
          else if inttype seg = IntersectType_Node then
            (case at vecSecondNodeMap (node0 edgeSecondCurrent) of
               Inl err \<Rightarrow> Inl err
             | Inr m0 \<Rightarrow>
                 if node1 seg = m0 then Inr (node1 seg, k)
                 else
                   (case at vecSecondNodeMap (node1 edgeSecondCurrent) of
                      Inl err \<Rightarrow> Inl err
                    | Inr m1 \<Rightarrow>
                        if node1 seg = m1 then Inr (node1 seg, k)
                        else FindExitNode vecSecondNodeMap vecTracedPath faceSecondCurrent
                               edgeSecondCurrent ixCurrentOverlapNode j ks))
          else if inttype seg = IntersectType_Edge
                  \<and> Edge_eq edgeSecondCurrent (edgeIntersect seg) then
            Inr (node1 seg, k)
          else
            FindExitNode vecSecondNodeMap vecTracedPath faceSecondCurrent edgeSecondCurrent
              ixCurrentOverlapNode j ks))"

text \<open>
  Lines 713-845: one iteration of the loop around the interior of \<open>faceSecondCurrent\<close>.
  The state is \<open>nEdgesCompleted\<close>, \<open>j\<close>, \<open>ixCurrentSecondEdge\<close>,
  \<open>ixCurrentOverlapNode\<close>, the face under construction and \<open>setSecondFacesToAdd\<close>.
  The iteration ends the loop by the guard (\<open>return false\<close>), by going back to the run
  along the first face at segment \<open>j\<close>, or by closing the face; otherwise the loop goes
  on with the next edge.
\<close>

datatype PhaseB_exit = InfiniteLoop | ResumePath | FaceClosed | NextEdge

type_synonym PhaseB_state = "nat \<times> nat \<times> int \<times> int \<times> Edge list \<times> int list"

definition PhaseBStep ::
  "'n Mesh \<Rightarrow> int list \<Rightarrow> PathSegment list \<Rightarrow> int \<Rightarrow> int \<Rightarrow> Face \<Rightarrow> PhaseB_state
     \<Rightarrow> error + (PhaseB_exit \<times> PhaseB_state)" where
  "PhaseBStep meshSecond vecSecondNodeMap vecTracedPath ixOverlapOriginNode ixCurrentSecondFace
      faceSecondCurrent state =
     (case state of
        (nEdgesCompleted, j, ixCurrentSecondEdge, ixCurrentOverlapNode, faceOverlap,
         setSecondFacesToAdd) \<Rightarrow>
     (case at (edges faceSecondCurrent) ixCurrentSecondEdge of
        Inl err \<Rightarrow> Inl err
      | Inr edgeSecondCurrent \<Rightarrow>
          if nEdgesCompleted > length (edges faceSecondCurrent) then
            Inr (InfiniteLoop, state)
          else if node0 edgeSecondCurrent = node1 edgeSecondCurrent then
            (case at vecSecondNodeMap (node1 edgeSecondCurrent) of
               Inl err \<Rightarrow> Inl err
             | Inr m1 \<Rightarrow>
                 Inr (NextEdge, Suc nEdgesCompleted, j,
                      (ixCurrentSecondEdge + 1) mod int (length (edges faceSecondCurrent)),
                      m1, faceOverlap, setSecondFacesToAdd))
          else
            (case FindExitNode vecSecondNodeMap vecTracedPath faceSecondCurrent
                    edgeSecondCurrent ixCurrentOverlapNode j
                    ([Suc j ..< length vecTracedPath] @ [0 ..< j]) of
               Inl err \<Rightarrow> Inl err
             | Inr (ixExitNode, k) \<Rightarrow>
            (case edgemap meshSecond edgeSecondCurrent of
               None \<Rightarrow> Inl (EXCEPTION ''Logic error'')
             | Some facepair \<Rightarrow>
            (case (if fst facepair = ixCurrentSecondFace then
                     Inr (set_insert (snd facepair) setSecondFacesToAdd)
                   else if snd facepair = ixCurrentSecondFace then
                     Inr (set_insert (fst facepair) setSecondFacesToAdd)
                   else Inl (EXCEPTION ''Logic error'')) of
               Inl err \<Rightarrow> Inl err
             | Inr setSecondFacesToAdd' \<Rightarrow>
            (case (if ixExitNode \<noteq> InvalidNode then
                     (case at vecTracedPath (int (Suc k mod length vecTracedPath)) of
                        Inl err \<Rightarrow> Inl err
                      | Inr segNext \<Rightarrow> Inr (ixSecondFace segNext = ixCurrentSecondFace))
                   else Inr False) of
               Inl err \<Rightarrow> Inl err
             | Inr fActive \<Rightarrow>
                 if fActive then
                   Inr (if ixExitNode = ixOverlapOriginNode then FaceClosed else ResumePath,
                        Suc nEdgesCompleted, Suc k mod length vecTracedPath,
                        ixCurrentSecondEdge, ixCurrentOverlapNode,
                        faceOverlap @ [\<lparr>node0 = ixCurrentOverlapNode, node1 = ixExitNode,
                                        type = type edgeSecondCurrent\<rparr>],
                        setSecondFacesToAdd')
                 else
                   (case at vecSecondNodeMap (node1 edgeSecondCurrent) of
                      Inl err \<Rightarrow> Inl err
                    | Inr m1 \<Rightarrow>
                        Inr (if m1 = ixOverlapOriginNode then FaceClosed else NextEdge,
                             Suc nEdgesCompleted, j,
                             (ixCurrentSecondEdge + 1)
                                mod int (length (edges faceSecondCurrent)),
                             m1,
                             faceOverlap @ [\<lparr>node0 = ixCurrentOverlapNode, node1 = m1,
                                             type = type edgeSecondCurrent\<rparr>],
                             setSecondFacesToAdd'))))))))"

lemma PhaseBStep_NextEdge:
  "PhaseBStep ms m path origin cur fsc (n, rest) = Inr (NextEdge, n', rest')
     \<Longrightarrow> n' = Suc n \<and> n \<le> length (edges fsc)"
  by (cases rest)
     (auto simp: PhaseBStep_def split: sum.splits if_splits option.splits prod.splits)

text \<open>
  Lines 710-846: the loop around the interior of \<open>faceSecondCurrent\<close>. The result
  carries \<open>nEdgesCompleted\<close>, the number of iterations that have passed the guard.
\<close>

function PhaseB ::
  "'n Mesh \<Rightarrow> int list \<Rightarrow> PathSegment list \<Rightarrow> int \<Rightarrow> int \<Rightarrow> Face \<Rightarrow> PhaseB_state
     \<Rightarrow> error + (PhaseB_exit \<times> PhaseB_state)" where
  "PhaseB meshSecond vecSecondNodeMap vecTracedPath ixOverlapOriginNode ixCurrentSecondFace
      faceSecondCurrent state =
     (case PhaseBStep meshSecond vecSecondNodeMap vecTracedPath ixOverlapOriginNode
             ixCurrentSecondFace faceSecondCurrent state of
        Inl err \<Rightarrow> Inl err
      | Inr (NextEdge, state') \<Rightarrow>
          PhaseB meshSecond vecSecondNodeMap vecTracedPath ixOverlapOriginNode
            ixCurrentSecondFace faceSecondCurrent state'
      | Inr (ex, state') \<Rightarrow> Inr (ex, state'))"
  by pat_completeness auto
termination
proof (relation "measure (\<lambda>(ms, m, path, origin, cur, fsc, n, rest).
    Suc (length (edges fsc)) - n)", goal_cases)
  case 1
  show ?case by simp
next
  case (2 ms m path origin cur fsc state x ex state')
  obtain n rest where s: "state = (n, rest)" by (cases state)
  obtain n' rest' where s': "state' = (n', rest')" by (cases state')
  from 2 s s' have "PhaseBStep ms m path origin cur fsc (n, rest) = Inr (NextEdge, n', rest')"
    by simp
  from PhaseBStep_NextEdge [OF this] s s' show ?case by auto
qed

declare PhaseB.simps [simp del]

text \<open>The number of path segments not yet used.\<close>

definition nUnused :: "bool list \<Rightarrow> nat" where
  "nUnused vecTracedPathUsed = length (filter (\<lambda>b. \<not> b) vecTracedPathUsed)"

lemma nUnused_update:
  "j < length u \<Longrightarrow> \<not> u ! j \<Longrightarrow> nUnused (u[j := True]) < nUnused u"
proof (induction u arbitrary: j)
  case Nil
  then show ?case by simp
next
  case (Cons b bs)
  show ?case
  proof (cases j)
    case 0
    with Cons.prems show ?thesis by (simp add: nUnused_def)
  next
    case (Suc i)
    with Cons.prems have "nUnused (bs[i := True]) < nUnused bs"
      by (intro Cons.IH) simp_all
    with Suc show ?thesis by (simp add: nUnused_def)
  qed
qed

lemma nUnused_update_le: "nUnused (u[j := True]) \<le> nUnused u"
proof (induction u arbitrary: j)
  case Nil
  then show ?case by simp
next
  case (Cons b bs)
  show ?case
  proof (cases j)
    case 0
    then show ?thesis by (simp add: nUnused_def)
  next
    case (Suc i)
    with Cons.IH [of i] show ?thesis by (simp add: nUnused_def)
  qed
qed

lemma PhaseA_uses_segment:
  "PhaseA path origin j face u = Inr (ex, j', face', u') \<Longrightarrow> nUnused u' < nUnused u"
proof (induction path origin j face u rule: PhaseA.induct)
  case (1 path origin j face u)
  note unfold = PhaseA.simps [of path origin j face u]
  from "1.prems" have inb: "j < length path" "j < length u" and fresh: "\<not> u ! j"
    by (auto split: if_splits simp: unfold Let_def)
  have step: "nUnused (u[j := True]) < nUnused u"
    using inb fresh by (rule_tac nUnused_update)
  show ?case
  proof (cases "inttype (path ! j) \<noteq> IntersectType_None \<or> node1 (path ! j) = origin")
    case True
    with "1.prems" inb fresh have "u' = u[j := True]"
      by (auto split: if_splits simp: unfold Let_def)
    with step show ?thesis by simp
  next
    case False
    with "1.prems" inb fresh
    have rec: "PhaseA path origin (Suc j) (face @ [Edge.truncate (path ! j)]) (u[j := True])
        = Inr (ex, j', face', u')"
      by (simp add: unfold Let_def)
    from False inb fresh have "nUnused u' < nUnused (u[j := True])"
      by (intro "1.IH" [OF _ refl _ refl _ _ rec]) auto
    with step show ?thesis by simp
  qed
qed

text \<open>
  Lines 676-847: the trips along the first face and around the second face that build
  one overlap face, from segment \<open>j\<close> on. The result is \<open>False\<close> where the source
  returns \<open>false\<close>, and \<open>True\<close> with the finished face at \<open>ContinueToNextFace\<close>.
\<close>

function BuildFace ::
  "'n Mesh \<Rightarrow> int list \<Rightarrow> PathSegment list \<Rightarrow> int \<Rightarrow> int \<Rightarrow> Face \<Rightarrow> nat
     \<Rightarrow> Edge list \<Rightarrow> bool list \<Rightarrow> int list
     \<Rightarrow> error + (bool \<times> Edge list \<times> bool list \<times> int list)" where
  "BuildFace meshSecond vecSecondNodeMap vecTracedPath ixOverlapOriginNode ixCurrentSecondFace
      faceSecondCurrent j faceOverlap vecTracedPathUsed setSecondFacesToAdd =
     (case PhaseA vecTracedPath ixOverlapOriginNode j faceOverlap vecTracedPathUsed of
        Inl err \<Rightarrow> Inl err
      | Inr (exA, jA, faceOverlapA, vecTracedPathUsed') \<Rightarrow>
          (case exA of
             HitOrigin \<Rightarrow> Inr (True, faceOverlapA, vecTracedPathUsed', setSecondFacesToAdd)
           | FoundBranch \<Rightarrow>
               (case at vecTracedPath (int jA) of
                  Inl err \<Rightarrow> Inl err
                | Inr seg \<Rightarrow>
                    (case PhaseB meshSecond vecSecondNodeMap vecTracedPath ixOverlapOriginNode
                            ixCurrentSecondFace faceSecondCurrent
                            (0, jA, ixIntersect seg, node1 seg, faceOverlapA,
                             setSecondFacesToAdd) of
                       Inl err \<Rightarrow> Inl err
                     | Inr (exB, nEdgesCompleted, jB, ixEdgeB, ixNodeB, faceOverlapB,
                            setSecondFacesToAdd') \<Rightarrow>
                         if exB = ResumePath then
                           BuildFace meshSecond vecSecondNodeMap vecTracedPath
                             ixOverlapOriginNode ixCurrentSecondFace faceSecondCurrent jB
                             faceOverlapB vecTracedPathUsed' setSecondFacesToAdd'
                         else
                           Inr (exB = FaceClosed, faceOverlapB, vecTracedPathUsed',
                                setSecondFacesToAdd')))))"
  by pat_completeness auto
termination
  by (relation "measure (\<lambda>(ms, m, p, on, sf, fsc, j, fo, u, ta). nUnused u)")
     (auto dest: PhaseA_uses_segment)

declare BuildFace.simps [simp del]


lemma BuildFace_uses_segment:
  "BuildFace ms m path origin cur fsc j face u ta = Inr (ok, face', u', ta')
     \<Longrightarrow> nUnused u' < nUnused u"
proof (induction ms m path origin cur fsc j face u ta rule: BuildFace.induct)
  case (1 ms m path origin cur fsc j face u ta)
  note unfold = BuildFace.simps [of ms m path origin cur fsc j face u ta]
  from "1.prems" obtain exA jA faceA uA
    where a: "PhaseA path origin j face u = Inr (exA, jA, faceA, uA)"
    by (auto simp: unfold split: sum.splits)
  then have less: "nUnused uA < nUnused u"
    by (rule PhaseA_uses_segment)
  show ?case
  proof (cases exA)
    case HitOrigin
    with "1.prems" a have "u' = uA" by (simp add: unfold)
    with less show ?thesis by simp
  next
    case FoundBranch
    with "1.prems" a obtain seg exB n jB eB nB faceB taB
      where s: "at path (int jA) = Inr seg"
        and b: "PhaseB ms m path origin cur fsc (0, jA, ixIntersect seg, node1 seg, faceA, ta)
                  = Inr (exB, n, jB, eB, nB, faceB, taB)"
      by (auto simp: unfold split: sum.splits)
    show ?thesis
    proof (cases "exB = ResumePath")
      case False
      with "1.prems" a s b FoundBranch have "u' = uA" by (simp add: unfold)
      with less show ?thesis by simp
    next
      case True
      with "1.prems" a s b FoundBranch
      have rec: "BuildFace ms m path origin cur fsc jB faceB uA taB = Inr (ok, face', u', ta')"
        by (simp add: unfold)
      have "nUnused u' < nUnused uA"
        by (rule "1.IH" [OF a refl refl refl FoundBranch s b refl refl refl refl refl refl
              True rec])
      with less show ?thesis by simp
    qed
  qed
qed

text \<open>
  Lines 655-867: the loop over the starting path segments. After a face is pushed the
  search counter is reset (\<open>j = 0\<close>, so the loop goes on at \<open>1\<close>), and the loop ends
  once every segment is used. The result is the success flag, the faces of the overlap
  mesh and \<open>setSecondFacesToAdd\<close>.
\<close>

function AssembleFaces ::
  "'n Mesh \<Rightarrow> int list \<Rightarrow> PathSegment list \<Rightarrow> nat \<Rightarrow> bool list \<Rightarrow> int list \<Rightarrow> Face list
     \<Rightarrow> error + (bool \<times> Face list \<times> int list)" where
  "AssembleFaces meshSecond vecSecondNodeMap vecTracedPath j vecTracedPathUsed
      setSecondFacesToAdd facesOverlap =
     (if j < length vecTracedPath then
        (case at vecTracedPathUsed (int j) of
           Inl err \<Rightarrow> Inl err
         | Inr True \<Rightarrow>
             AssembleFaces meshSecond vecSecondNodeMap vecTracedPath (Suc j) vecTracedPathUsed
               setSecondFacesToAdd facesOverlap
         | Inr False \<Rightarrow>
             (case at (faces meshSecond) (ixSecondFace (vecTracedPath ! j)) of
                Inl err \<Rightarrow> Inl err
              | Inr faceSecondCurrent \<Rightarrow>
                  (case BuildFace meshSecond vecSecondNodeMap vecTracedPath
                          (node0 (vecTracedPath ! j)) (ixSecondFace (vecTracedPath ! j))
                          faceSecondCurrent j [] vecTracedPathUsed setSecondFacesToAdd of
                     Inl err \<Rightarrow> Inl err
                   | Inr (fSuccess, faceOverlap, vecTracedPathUsed', setSecondFacesToAdd') \<Rightarrow>
                       if \<not> fSuccess then Inr (False, facesOverlap, setSecondFacesToAdd')
                       else if length (filter (\<lambda>b. b) vecTracedPathUsed')
                               = length vecTracedPath then
                         Inr (True, facesOverlap @ [\<lparr>edges = faceOverlap\<rparr>],
                              setSecondFacesToAdd')
                       else
                         AssembleFaces meshSecond vecSecondNodeMap vecTracedPath (Suc 0)
                           vecTracedPathUsed' setSecondFacesToAdd'
                           (facesOverlap @ [\<lparr>edges = faceOverlap\<rparr>]))))
      else Inr (True, facesOverlap, setSecondFacesToAdd))"
  by pat_completeness auto
termination
  by (relation "measures [\<lambda>(ms, m, p, j, u, ta, fo). nUnused u,
                          \<lambda>(ms, m, p, j, u, ta, fo). length p - j]")
     (auto dest: BuildFace_uses_segment)

declare AssembleFaces.simps [simp del]

text \<open>Lines 890-899: the face of the second mesh, its nodes mapped to overlap indices.\<close>

fun MapEdges :: "int list \<Rightarrow> Edge list \<Rightarrow> error + Edge list" where
  "MapEdges vecSecondNodeMap [] = Inr []"
| "MapEdges vecSecondNodeMap (e # es) =
     (case at vecSecondNodeMap (node0 e) of
        Inl err \<Rightarrow> Inl err
      | Inr a \<Rightarrow>
          (case at vecSecondNodeMap (node1 e) of
             Inl err \<Rightarrow> Inl err
           | Inr b \<Rightarrow>
               (case MapEdges vecSecondNodeMap es of
                  Inl err \<Rightarrow> Inl err
                | Inr es' \<Rightarrow> Inr (\<lparr>node0 = a, node1 = b, type = type e\<rparr> # es'))))"

text \<open>
  Lines 906-938: the neighbours of the face just added, across its edges; one that is
  not in \<open>setSecondFacesAdded\<close> is inserted into \<open>setSecondFacesToAdd\<close>.
\<close>

fun AddFurtherFaces ::
  "'n Mesh \<Rightarrow> int \<Rightarrow> int list \<Rightarrow> Edge list \<Rightarrow> int list \<Rightarrow> bool \<Rightarrow> error + (int list \<times> bool)" where
  "AddFurtherFaces meshSecond ixFace setSecondFacesAdded [] setSecondFacesToAdd fMoreFacesToAdd =
     Inr (setSecondFacesToAdd, fMoreFacesToAdd)"
| "AddFurtherFaces meshSecond ixFace setSecondFacesAdded (e # es) setSecondFacesToAdd
      fMoreFacesToAdd =
     (if node0 e = node1 e then
        AddFurtherFaces meshSecond ixFace setSecondFacesAdded es setSecondFacesToAdd
          fMoreFacesToAdd
      else
        (case edgemap meshSecond e of
           None \<Rightarrow> Inl (EXCEPTION ''Edge not found in EdgeMap'')
         | Some facepair \<Rightarrow>
             (case (if fst facepair = ixFace then Inr (snd facepair)
                    else if snd facepair = ixFace then Inr (fst facepair)
                    else Inl (EXCEPTION ''EdgeMap consistency error'')) of
                Inl err \<Rightarrow> Inl err
              | Inr iOtherFace \<Rightarrow>
                  if iOtherFace \<notin> set setSecondFacesAdded then
                    AddFurtherFaces meshSecond ixFace setSecondFacesAdded es
                      (set_insert iOtherFace setSecondFacesToAdd) True
                  else
                    AddFurtherFaces meshSecond ixFace setSecondFacesAdded es
                      setSecondFacesToAdd fMoreFacesToAdd)))"

lemma set_set_insert [simp]: "set (set_insert x s) = insert x (set s)"
  by (auto simp: set_insert_def set_insort_key)

lemma set_set_erase [simp]: "set (set_erase x s) = set s - {x}"
  by (auto simp: set_erase_def)

lemma AddFurtherFaces_set:
  "AddFurtherFaces ms c added es ta fm = Inr (ta', fm')
     \<Longrightarrow> set ta \<subseteq> set ta' \<and> set ta' \<subseteq> set ta \<union> (- set added)"
proof (induction es arbitrary: ta fm)
  case Nil
  then show ?case by simp
next
  case (Cons e es)
  show ?case
  proof (cases "node0 e = node1 e")
    case True
    with Cons.prems have "AddFurtherFaces ms c added es ta fm = Inr (ta', fm')" by simp
    then show ?thesis by (rule Cons.IH)
  next
    case False
    with Cons.prems obtain other where
      rec: "(other \<notin> set added
              \<and> AddFurtherFaces ms c added es (set_insert other ta) True = Inr (ta', fm'))
            \<or> (other \<in> set added \<and> AddFurtherFaces ms c added es ta fm = Inr (ta', fm'))"
      by (auto split: option.splits sum.splits if_splits)
    then show ?thesis
    proof
      assume a: "other \<notin> set added
        \<and> AddFurtherFaces ms c added es (set_insert other ta) True = Inr (ta', fm')"
      then have "AddFurtherFaces ms c added es (set_insert other ta) True = Inr (ta', fm')"
        by simp
      then have "set (set_insert other ta) \<subseteq> set ta'
          \<and> set ta' \<subseteq> set (set_insert other ta) \<union> (- set added)"
        by (rule Cons.IH)
      with a show ?thesis by auto
    next
      assume "other \<in> set added \<and> AddFurtherFaces ms c added es ta fm = Inr (ta', fm')"
      then have "AddFurtherFaces ms c added es ta fm = Inr (ta', fm')"
        by simp
      then show ?thesis by (rule Cons.IH)
    qed
  qed
qed

text \<open>
  Lines 883-946: the loop over \<open>setSecondFacesToAdd\<close>. The iterator \<open>iterToAdd\<close> splits
  the set into the elements before it (\<open>passed\<close>) and the elements from it on. When a
  neighbour was inserted the current face is erased and the iterator goes back to
  \<open>begin()\<close>; otherwise the current face stays in the set and the iterator moves on.
\<close>

function InteriorFaces ::
  "'n Mesh \<Rightarrow> int list \<Rightarrow> int list \<Rightarrow> int list \<Rightarrow> int list \<Rightarrow> Face list
     \<Rightarrow> error + Face list" where
  "InteriorFaces meshSecond vecSecondNodeMap passed [] setSecondFacesAdded facesOverlap =
     Inr facesOverlap"
| "InteriorFaces meshSecond vecSecondNodeMap passed (ixFace # rest) setSecondFacesAdded
      facesOverlap =
     (case at (faces meshSecond) ixFace of
        Inl err \<Rightarrow> Inl err
      | Inr faceSecondCurrent \<Rightarrow>
          (case MapEdges vecSecondNodeMap (edges faceSecondCurrent) of
             Inl err \<Rightarrow> Inl err
           | Inr es \<Rightarrow>
               (case AddFurtherFaces meshSecond ixFace (set_insert ixFace setSecondFacesAdded)
                       (edges faceSecondCurrent) (passed @ ixFace # rest) False of
                  Inl err \<Rightarrow> Inl err
                | Inr (setSecondFacesToAdd', fMoreFacesToAdd) \<Rightarrow>
                    if fMoreFacesToAdd then
                      InteriorFaces meshSecond vecSecondNodeMap []
                        (set_erase ixFace setSecondFacesToAdd')
                        (set_insert ixFace setSecondFacesAdded)
                        (facesOverlap @ [\<lparr>edges = es\<rparr>])
                    else
                      InteriorFaces meshSecond vecSecondNodeMap (passed @ [ixFace]) rest
                        (set_insert ixFace setSecondFacesAdded)
                        (facesOverlap @ [\<lparr>edges = es\<rparr>]))))"
  by pat_completeness auto

termination
proof (relation "measures
    [\<lambda>(ms, m, passed, rest, added, fo).
        card ({0 ..< int (length (faces ms))} - (set added - set (passed @ rest))),
     \<lambda>(ms, m, passed, rest, added, fo). length rest]", goal_cases)
  case 1
  show ?case by simp
next
  case (2 ms m passed ix rest added fo fsc es x ta fm)
  let ?U = "{0 ..< int (length (faces ms))}"
  let ?D = "set added - set (passed @ ix # rest)"
  let ?D' = "set (set_insert ix added) - set (set_erase ix ta)"
  from 2 have run: "AddFurtherFaces ms ix (set_insert ix added) (edges fsc)
      (passed @ ix # rest) False = Inr (ta, fm)"
    by simp
  from AddFurtherFaces_set [OF run]
  have sub: "set (passed @ ix # rest) \<subseteq> set ta"
    and new: "set ta \<subseteq> set (passed @ ix # rest) \<union> (- set (set_insert ix added))"
    by simp_all
  from 2 have inU: "ix \<in> ?U"
    by (auto simp: at_def split: if_splits)
  have "ix \<notin> ?D" by simp
  moreover have "ix \<in> ?D'" by simp
  moreover have "?D \<subseteq> ?D'" using new by auto
  ultimately have "?U - ?D' \<subset> ?U - ?D"
    using inU by blast
  then have "card (?U - ?D') < card (?U - ?D)"
    by (intro psubset_card_mono) simp_all
  then show ?case by simp
next
  case (3 ms m passed ix rest added fo fsc es x ta fm)
  have "set (set_insert ix added) - set ((passed @ [ix]) @ rest)
      = set added - set (passed @ ix # rest)"
    by auto
  then show ?case by simp
qed

declare InteriorFaces.simps [simp del]

text \<open>
  Lines 642-649: \<open>setSecondFacesAdded\<close> starts as the faces of the second mesh that the
  path segments name.
\<close>

definition SecondFacesOfPath :: "PathSegment list \<Rightarrow> int list" where
  "SecondFacesOfPath vecTracedPath =
     fold (\<lambda>seg s. set_insert (ixSecondFace seg) s) vecTracedPath []"

text \<open>Lines 873-881: the faces added are taken out of \<open>setSecondFacesToAdd\<close>.\<close>

definition RemoveAddedFaces :: "int list \<Rightarrow> int list \<Rightarrow> int list" where
  "RemoveAddedFaces setSecondFacesAdded setSecondFacesToAdd =
     fold (\<lambda>ixAdded s. if ixAdded \<in> set s then set_erase ixAdded s else s)
       setSecondFacesAdded setSecondFacesToAdd"

text \<open>
  Lines 630-949: the overlap faces of one traced path are assembled, then the interior
  faces of the second mesh are added. The result is the value returned and the overlap
  mesh.
\<close>

definition GenerateOverlapFaces ::
  "'n Mesh \<Rightarrow> int list \<Rightarrow> PathSegment list \<Rightarrow> 'n Mesh \<Rightarrow> error + (bool \<times> 'n Mesh)" where
  "GenerateOverlapFaces meshSecond vecSecondNodeMap vecTracedPath meshOverlap =
     (case AssembleFaces meshSecond vecSecondNodeMap vecTracedPath 0
             (replicate (length vecTracedPath) False) [] (faces meshOverlap) of
        Inl err \<Rightarrow> Inl err
      | Inr (fSuccess, facesOverlap, setSecondFacesToAdd) \<Rightarrow>
          if \<not> fSuccess then Inr (False, meshOverlap\<lparr>faces := facesOverlap\<rparr>)
          else
            (case InteriorFaces meshSecond vecSecondNodeMap []
                    (RemoveAddedFaces (SecondFacesOfPath vecTracedPath) setSecondFacesToAdd)
                    (SecondFacesOfPath vecTracedPath) facesOverlap of
               Inl err \<Rightarrow> Inl err
             | Inr facesOverlap' \<Rightarrow> Inr (True, meshOverlap\<lparr>faces := facesOverlap'\<rparr>)))"

section \<open>The geometric kernel and the mesh operations consumed\<close>

text \<open>
  Modelled from the spec: the result of \<open>FindFaceFromNode\<close> (the struct is declared with
  the kernel, which is not among the sources) holds the faces whose closure contains the
  node, the local index of the node's place in each, and the kind of place.
\<close>

datatype NodeLocation = NodeLocation_Interior | NodeLocation_Edge | NodeLocation_Corner

record FindFaceStruct =
  vecFaceIndices :: "int list"
  vecFaceLocations :: "int list"
  loc :: NodeLocation

text \<open>
  The kernel is the template parameter \<open>MeshUtilities\<close> of \<open>GeneratePath\<close>: a record of
  the four operations the tracer calls. \<open>CalculateEdgeIntersections\<close> receives
  \<open>nodeIntersections\<close> by reference, so it maps the vector it is given to the vector
  it leaves. \<open>FindFaceNearNode\<close> is overloaded: on a node with a \<open>FindFaceStruct\<close>, and
  on the index of a node of the mesh.
\<close>

record 'n MeshUtilities =
  AreNodesEqual :: "'n \<Rightarrow> 'n \<Rightarrow> bool"
  CalculateEdgeIntersections ::
    "'n \<Rightarrow> 'n \<Rightarrow> Edge_Type \<Rightarrow> 'n \<Rightarrow> 'n \<Rightarrow> Edge_Type \<Rightarrow> 'n list \<Rightarrow> bool \<times> 'n list"
  FindFaceFromNode :: "'n Mesh \<Rightarrow> 'n \<Rightarrow> FindFaceStruct"
  FindFaceNearNode :: "'n Mesh \<Rightarrow> 'n \<Rightarrow> 'n \<Rightarrow> Edge_Type \<Rightarrow> FindFaceStruct \<Rightarrow> int"
  FindFaceNearNodeIx :: "'n Mesh \<Rightarrow> int \<Rightarrow> 'n \<Rightarrow> Edge_Type \<Rightarrow> int"

text \<open>
  Modelled from the spec: \<open>GetEdgeIndex\<close> (a method of \<open>Face\<close>, not among the sources)
  returns the local index of an edge in a face; an edge the face does not have is an
  exception.
\<close>

fun GetEdgeIndexFrom :: "Edge list \<Rightarrow> Edge \<Rightarrow> int \<Rightarrow> error + int" where
  "GetEdgeIndexFrom [] e i = Inl (EXCEPTION ''Edge not found on Face'')"
| "GetEdgeIndexFrom (g # gs) e i = (if Edge_eq g e then Inr i else GetEdgeIndexFrom gs e (i + 1))"

definition GetEdgeIndex :: "Face \<Rightarrow> Edge \<Rightarrow> error + int" where
  "GetEdgeIndex face e = GetEdgeIndexFrom (edges face) e 0"

text \<open>
  Lines 52-88: the two constructors of \<open>PathSegment\<close>. The first leaves
  \<open>edgeIntersect\<close> default-constructed; the field is read only where \<open>inttype\<close> is
  \<open>IntersectType_Edge\<close>.
\<close>

definition Edge_default :: Edge where
  "Edge_default = \<lparr>node0 = InvalidNode, node1 = InvalidNode, type = Type_GreatCircleArc\<rparr>"

definition PathSegmentNode ::
  "int \<Rightarrow> int \<Rightarrow> Edge_Type \<Rightarrow> int \<Rightarrow> int \<Rightarrow> IntersectType \<Rightarrow> int \<Rightarrow> PathSegment" where
  "PathSegmentNode a_node0 a_node1 a_type a_ixFirstFace a_ixSecondFace a_inttype a_ixIntersect =
     \<lparr>node0 = a_node0, node1 = a_node1, type = a_type,
      ixFirstFace = a_ixFirstFace, ixSecondFace = a_ixSecondFace,
      inttype = a_inttype, ixIntersect = a_ixIntersect, edgeIntersect = Edge_default\<rparr>"

definition PathSegmentEdge ::
  "int \<Rightarrow> int \<Rightarrow> Edge_Type \<Rightarrow> int \<Rightarrow> int \<Rightarrow> int \<Rightarrow> Edge \<Rightarrow> PathSegment" where
  "PathSegmentEdge a_node0 a_node1 a_type a_ixFirstFace a_ixSecondFace a_ixIntersect
      a_edgeIntersect =
     \<lparr>node0 = a_node0, node1 = a_node1, type = a_type,
      ixFirstFace = a_ixFirstFace, ixSecondFace = a_ixSecondFace,
      inttype = IntersectType_Edge, ixIntersect = a_ixIntersect,
      edgeIntersect = a_edgeIntersect\<rparr>"

section \<open>GeneratePath: the tracer (lines 130-626)\<close>

text \<open>
  Lines 229-281: the scan of the edges of the current face of the second mesh for an
  intersection with the current edge of the first face. The result is
  \<open>fCoincidentEdge\<close>, \<open>nodeIntersections\<close> and \<open>ixIntersectionSecondEdge\<close>, which the
  source leaves unassigned unless the scan ends by its \<open>break\<close>.
\<close>

fun ScanSecondFace ::
  "'n MeshUtilities \<Rightarrow> 'n list \<Rightarrow> 'n list \<Rightarrow> Edge \<Rightarrow> 'n \<Rightarrow> Edge list \<Rightarrow> nat
     \<Rightarrow> bool \<Rightarrow> 'n list \<Rightarrow> error + (bool \<times> 'n list \<times> nat option)" where
  "ScanSecondFace utils nodevecOverlap nodevecSecond edgeFirstCurrent nodeLastIntersection
      [] j fCoincidentEdge nodeIntersections =
     Inr (fCoincidentEdge, nodeIntersections, None)"
| "ScanSecondFace utils nodevecOverlap nodevecSecond edgeFirstCurrent nodeLastIntersection
      (edgeSecondCurrent # es) j fCoincidentEdge nodeIntersections =
     (if node0 edgeSecondCurrent = node1 edgeSecondCurrent then
        Inl (EXCEPTION ''Zero Edge detected'')
      else
        (case at nodevecOverlap (node0 edgeFirstCurrent) of
           Inl err \<Rightarrow> Inl err
         | Inr nodeA \<Rightarrow>
        (case at nodevecOverlap (node1 edgeFirstCurrent) of
           Inl err \<Rightarrow> Inl err
         | Inr nodeB \<Rightarrow>
        (case at nodevecSecond (node0 edgeSecondCurrent) of
           Inl err \<Rightarrow> Inl err
         | Inr nodeS0 \<Rightarrow>
        (case at nodevecSecond (node1 edgeSecondCurrent) of
           Inl err \<Rightarrow> Inl err
         | Inr nodeS1 \<Rightarrow>
           (case CalculateEdgeIntersections utils nodeA nodeB (type edgeFirstCurrent)
                   nodeS0 nodeS1 (type edgeSecondCurrent) nodeIntersections of
              (fCoincidentEdge', calculated) \<Rightarrow>
                let nodeIntersections' =
                      filter (\<lambda>x. \<not> AreNodesEqual utils x nodeLastIntersection) calculated
                in
                if fCoincidentEdge' then
                  ScanSecondFace utils nodevecOverlap nodevecSecond edgeFirstCurrent
                    nodeLastIntersection es (Suc j) fCoincidentEdge' []
                else if length nodeIntersections' > 1 then
                  Inl (EXCEPTION ''Not implemented: Non-convex intersections'')
                else if length nodeIntersections' = 1 then
                  Inr (fCoincidentEdge', nodeIntersections', Some j)
                else
                  ScanSecondFace utils nodevecOverlap nodevecSecond edgeFirstCurrent
                    nodeLastIntersection es (Suc j) fCoincidentEdge' nodeIntersections'))))))"


text \<open>
  Lines 413-433 and 590-609: the \<open>FindFaceStruct\<close> of a point on an edge of the second
  mesh, built from the two faces that share the edge.
\<close>

definition EdgeFindFaceStruct :: "'n Mesh \<Rightarrow> FacePair \<Rightarrow> Edge \<Rightarrow> error + FindFaceStruct" where
  "EdgeFindFaceStruct meshSecond facepair edgeSecondCurrent =
     (case at (faces meshSecond) (fst facepair) of
        Inl err \<Rightarrow> Inl err
      | Inr face0 \<Rightarrow>
     (case at (faces meshSecond) (snd facepair) of
        Inl err \<Rightarrow> Inl err
      | Inr face1 \<Rightarrow>
     (case GetEdgeIndex face0 edgeSecondCurrent of
        Inl err \<Rightarrow> Inl err
      | Inr iEdge0 \<Rightarrow>
     (case GetEdgeIndex face1 edgeSecondCurrent of
        Inl err \<Rightarrow> Inl err
      | Inr iEdge1 \<Rightarrow>
          Inr \<lparr>vecFaceIndices = [fst facepair, snd facepair],
               vecFaceLocations = [iEdge0, iEdge1],
               loc = NodeLocation_Edge\<rparr>))))"

text \<open>
  Lines 340-459: the intersection is the end point of the current edge of the first
  face. The next face of the second mesh is found from the next edge of the first face;
  a warning is printed when it is the current face, and a bifurcation segment is pushed
  when it is not. The result is \<open>ixNextSecondFace\<close>, the traced path and the output.
\<close>

definition NextSecondFace ::
  "'n MeshUtilities \<Rightarrow> 'n Mesh \<Rightarrow> 'n Mesh \<Rightarrow> Face \<Rightarrow> nat \<Rightarrow> Edge \<Rightarrow> int \<Rightarrow> Face \<Rightarrow> nat \<Rightarrow> Edge
     \<Rightarrow> 'n \<Rightarrow> 'n \<Rightarrow> 'n \<Rightarrow> int \<Rightarrow> int \<Rightarrow> PathSegment list \<Rightarrow> string list
     \<Rightarrow> error + (int \<times> PathSegment list \<times> string list)" where
  "NextSecondFace utils meshFirst meshSecond faceFirstCurrent i edgeFirstCurrent
      ixCurrentFirstFace faceSecondCurrent ixIntersectionSecondEdge edgeSecondCurrent
      nodeSecondEdge0 nodeSecondEdge1 nodeIntersection ixCurrentSecondFace
      ixOverlapNodeCurrent tracedPath out =
     (case at (edges faceFirstCurrent) (int (Suc i mod length (edges faceFirstCurrent))) of
        Inl err \<Rightarrow> Inl err
      | Inr edgeFirstNext \<Rightarrow>
     (case edgemap meshSecond edgeSecondCurrent of
        None \<Rightarrow> Inl (EXCEPTION ''Logic error'')
      | Some facepair \<Rightarrow>
          if AreNodesEqual utils nodeIntersection nodeSecondEdge0 then
            (case at (nodes meshFirst) (node1 edgeFirstNext) of
               Inl err \<Rightarrow> Inl err
             | Inr nodeNext \<Rightarrow>
                 let ixNextSecondFace =
                       FindFaceNearNodeIx utils meshSecond (node0 edgeSecondCurrent) nodeNext
                         (type edgeFirstNext)
                 in Inr (ixNextSecondFace,
                      (if ixNextSecondFace \<noteq> ixCurrentSecondFace then
                         tracedPath @ [PathSegmentNode ixOverlapNodeCurrent
                           (node1 edgeFirstCurrent) (type edgeFirstCurrent) ixCurrentFirstFace
                           ixCurrentSecondFace IntersectType_Node
                           (int ixIntersectionSecondEdge)]
                       else tracedPath),
                      (if ixNextSecondFace = ixCurrentSecondFace then
                         out @ [''WARNING: Face does not change across Edge (1)'']
                       else out)))
          else if AreNodesEqual utils nodeIntersection nodeSecondEdge1 then
            (case at (nodes meshFirst) (node1 edgeFirstNext) of
               Inl err \<Rightarrow> Inl err
             | Inr nodeNext \<Rightarrow>
                 let ixNextSecondFace =
                       FindFaceNearNodeIx utils meshSecond (node1 edgeSecondCurrent) nodeNext
                         (type edgeFirstNext)
                 in Inr (ixNextSecondFace,
                      (if ixNextSecondFace \<noteq> ixCurrentSecondFace then
                         tracedPath @ [PathSegmentNode ixOverlapNodeCurrent
                           (node1 edgeFirstCurrent) (type edgeFirstCurrent) ixCurrentFirstFace
                           ixCurrentSecondFace IntersectType_Node
                           (int (Suc ixIntersectionSecondEdge
                                   mod length (edges faceSecondCurrent)))]
                       else tracedPath),
                      (if ixNextSecondFace = ixCurrentSecondFace then
                         out @ [''WARNING: Face does not change across Edge (2)'']
                       else out)))
          else
            (case EdgeFindFaceStruct meshSecond facepair edgeSecondCurrent of
               Inl err \<Rightarrow> Inl err
             | Inr aNextFindFaceStruct \<Rightarrow>
            (case at (nodes meshFirst) (node0 edgeFirstNext) of
               Inl err \<Rightarrow> Inl err
             | Inr nodeNextBegin \<Rightarrow>
            (case at (nodes meshFirst) (node1 edgeFirstNext) of
               Inl err \<Rightarrow> Inl err
             | Inr nodeNextEnd \<Rightarrow>
                 let ixNextSecondFace =
                       FindFaceNearNode utils meshSecond nodeNextBegin nodeNextEnd
                         (type edgeFirstNext) aNextFindFaceStruct
                 in Inr (ixNextSecondFace,
                      (if ixNextSecondFace \<noteq> ixCurrentSecondFace then
                         tracedPath @ [PathSegmentEdge ixOverlapNodeCurrent
                           (node1 edgeFirstCurrent) (type edgeFirstCurrent) ixCurrentFirstFace
                           ixCurrentSecondFace (int ixIntersectionSecondEdge)
                           edgeSecondCurrent]
                       else tracedPath),
                      (if ixNextSecondFace = ixCurrentSecondFace then
                         out @ [''WARNING: Face does not change across Edge (3)'']
                       else out)))))))"

text \<open>
  Lines 216-623: one iteration of the loop \<open>for (;;)\<close> that traces one edge of the first
  face. The state is the current face of the second mesh, the current overlap node,
  the last intersection, the traced path, the overlap mesh and the warnings printed.
  The result is the state it leaves, with \<open>True\<close> where the loop goes round again
  and \<open>False\<close> where it ends (\<open>break\<close>).
\<close>

type_synonym 'n TraceState = "int \<times> int \<times> 'n \<times> PathSegment list \<times> 'n Mesh \<times> string list"

definition TraceStep ::
  "'n MeshUtilities \<Rightarrow> 'n Mesh \<Rightarrow> 'n Mesh \<Rightarrow> int list \<Rightarrow> int \<Rightarrow> Face \<Rightarrow> nat \<Rightarrow> Edge \<Rightarrow> 'n
     \<Rightarrow> 'n TraceState \<Rightarrow> error + (bool \<times> 'n TraceState)" where
  "TraceStep utils meshFirst meshSecond vecSecondNodeMap ixCurrentFirstFace faceFirstCurrent i
      edgeFirstCurrent nodeFirstEnd state =
     (case state of
        (ixCurrentSecondFace, ixOverlapNodeCurrent, nodeLastIntersection, tracedPath,
         meshOverlap, out) \<Rightarrow>
     (case at (faces meshSecond) ixCurrentSecondFace of
        Inl err \<Rightarrow> Inl err
      | Inr faceSecondCurrent \<Rightarrow>
     (case ScanSecondFace utils (nodes meshOverlap) (nodes meshSecond) edgeFirstCurrent
             nodeLastIntersection (edges faceSecondCurrent) 0 False [] of
        Inl err \<Rightarrow> Inl err
      | Inr (fCoincidentEdge, nodeIntersections, ixFound) \<Rightarrow>
          if length nodeIntersections = 0 then
            Inr (False, ixCurrentSecondFace, ixOverlapNodeCurrent, nodeLastIntersection,
                 tracedPath @ [PathSegmentNode ixOverlapNodeCurrent (node1 edgeFirstCurrent)
                   (type edgeFirstCurrent) ixCurrentFirstFace ixCurrentSecondFace
                   IntersectType_None 0],
                 meshOverlap, out)
          else if fCoincidentEdge then Inl (EXCEPTION ''Not implemented'')
          else if length nodeIntersections > 1 then Inl (EXCEPTION ''Logic Error'')
          else
     (case ixFound of
        None \<Rightarrow> Inl UninitializedRead
      | Some ixIntersectionSecondEdge \<Rightarrow>
     (case at (edges faceSecondCurrent) (int ixIntersectionSecondEdge) of
        Inl err \<Rightarrow> Inl err
      | Inr edgeSecondCurrent \<Rightarrow>
     (case at (nodes meshSecond) (node0 edgeSecondCurrent) of
        Inl err \<Rightarrow> Inl err
      | Inr nodeSecondEdge0 \<Rightarrow>
     (case at (nodes meshSecond) (node1 edgeSecondCurrent) of
        Inl err \<Rightarrow> Inl err
      | Inr nodeSecondEdge1 \<Rightarrow>
     (case at (nodes meshOverlap) (node1 edgeFirstCurrent) of
        Inl err \<Rightarrow> Inl err
      | Inr nodeOverlapEnd \<Rightarrow>
          if AreNodesEqual utils (hd nodeIntersections) nodeOverlapEnd then
            (case NextSecondFace utils meshFirst meshSecond faceFirstCurrent i
                    edgeFirstCurrent ixCurrentFirstFace faceSecondCurrent
                    ixIntersectionSecondEdge edgeSecondCurrent nodeSecondEdge0
                    nodeSecondEdge1 (hd nodeIntersections) ixCurrentSecondFace
                    ixOverlapNodeCurrent tracedPath out of
               Inl err \<Rightarrow> Inl err
             | Inr (ixNextSecondFace, tracedPath', out') \<Rightarrow>
                 Inr (False, ixNextSecondFace, node1 edgeFirstCurrent, hd nodeIntersections,
                      (if ixNextSecondFace = ixCurrentSecondFace then
                         tracedPath' @ [PathSegmentNode ixOverlapNodeCurrent
                           (node1 edgeFirstCurrent) (type edgeFirstCurrent) ixCurrentFirstFace
                           ixCurrentSecondFace IntersectType_None
                           (int ixIntersectionSecondEdge)]
                       else tracedPath'),
                      meshOverlap, out'))
          else if AreNodesEqual utils (hd nodeIntersections) nodeSecondEdge0 then
            (case at vecSecondNodeMap (node0 edgeSecondCurrent) of
               Inl err \<Rightarrow> Inl err
             | Inr ixOverlapNodeNext \<Rightarrow>
                 let ixNewSecondFace =
                       FindFaceNearNodeIx utils meshSecond (node0 edgeSecondCurrent)
                         nodeFirstEnd (type edgeFirstCurrent)
                 in Inr (ixOverlapNodeNext \<noteq> node1 edgeFirstCurrent,
                      ixNewSecondFace, ixOverlapNodeNext, hd nodeIntersections,
                      tracedPath @ [PathSegmentNode ixOverlapNodeCurrent ixOverlapNodeNext
                        (type edgeFirstCurrent) ixCurrentFirstFace ixCurrentSecondFace
                        IntersectType_Node (int ixIntersectionSecondEdge)],
                      meshOverlap,
                      (if ixCurrentSecondFace = ixNewSecondFace then
                         out @ [''WARNING: Face does not change across Edge (4)'']
                       else out)))
          else if AreNodesEqual utils (hd nodeIntersections) nodeSecondEdge1 then
            (case at vecSecondNodeMap (node1 edgeSecondCurrent) of
               Inl err \<Rightarrow> Inl err
             | Inr ixOverlapNodeNext \<Rightarrow>
                 let ixNewSecondFace =
                       FindFaceNearNodeIx utils meshSecond (node1 edgeSecondCurrent)
                         nodeFirstEnd (type edgeFirstCurrent)
                 in Inr (ixOverlapNodeNext \<noteq> node1 edgeFirstCurrent,
                      ixNewSecondFace, ixOverlapNodeNext, hd nodeIntersections,
                      tracedPath @ [PathSegmentNode ixOverlapNodeCurrent ixOverlapNodeNext
                        (type edgeFirstCurrent) ixCurrentFirstFace ixCurrentSecondFace
                        IntersectType_Node
                        (int (Suc ixIntersectionSecondEdge
                                mod length (edges faceSecondCurrent)))],
                      meshOverlap,
                      (if ixCurrentSecondFace = ixNewSecondFace then
                         out @ [''WARNING: Face does not change across Edge (5)'']
                       else out)))
          else
            (let ixOverlapNodeNext = int (length (nodes meshOverlap));
                 meshOverlap' = meshOverlap\<lparr>nodes := nodes meshOverlap @ [hd nodeIntersections]\<rparr>;
                 tracedPath' =
                   tracedPath @ [PathSegmentEdge ixOverlapNodeCurrent ixOverlapNodeNext
                     (type edgeFirstCurrent) ixCurrentFirstFace ixCurrentSecondFace
                     (int ixIntersectionSecondEdge) edgeSecondCurrent]
             in
             case edgemap meshSecond edgeSecondCurrent of
               None \<Rightarrow> Inl (EXCEPTION ''Logic error'')
             | Some facepair \<Rightarrow>
                 (case EdgeFindFaceStruct meshSecond facepair edgeSecondCurrent of
                    Inl err \<Rightarrow> Inl err
                  | Inr aNextFindFaceStruct \<Rightarrow>
                      (case at (nodes meshOverlap') (node1 edgeFirstCurrent) of
                         Inl err \<Rightarrow> Inl err
                       | Inr nodeEnd \<Rightarrow>
                           let ixNewSecondFace =
                                 FindFaceNearNode utils meshSecond (hd nodeIntersections)
                                   nodeEnd (type edgeFirstCurrent) aNextFindFaceStruct
                           in Inr (True, ixNewSecondFace, ixOverlapNodeNext,
                                hd nodeIntersections, tracedPath', meshOverlap',
                                (if ixCurrentSecondFace = ixNewSecondFace then
                                   out @ [''WARNING: Face does not change across Edge (3)'']
                                 else out)))))))))))))"


text \<open>
  Lines 210-624: the loop \<open>for (;;)\<close> has no bound of its own; it ends when an iteration
  ends it. A loop that never ends is the value \<open>None\<close>.
\<close>

partial_function (option) TraceEdge ::
  "'n MeshUtilities \<Rightarrow> 'n Mesh \<Rightarrow> 'n Mesh \<Rightarrow> int list \<Rightarrow> int \<Rightarrow> Face \<Rightarrow> nat \<Rightarrow> Edge \<Rightarrow> 'n
     \<Rightarrow> 'n TraceState \<Rightarrow> (error + 'n TraceState) option" where
  "TraceEdge utils meshFirst meshSecond vecSecondNodeMap ixCurrentFirstFace faceFirstCurrent i
      edgeFirstCurrent nodeFirstEnd state =
     (case TraceStep utils meshFirst meshSecond vecSecondNodeMap ixCurrentFirstFace
             faceFirstCurrent i edgeFirstCurrent nodeFirstEnd state of
        Inl err \<Rightarrow> Some (Inl err)
      | Inr (again, state') \<Rightarrow>
          if again then
            TraceEdge utils meshFirst meshSecond vecSecondNodeMap ixCurrentFirstFace
              faceFirstCurrent i edgeFirstCurrent nodeFirstEnd state'
          else Some (Inr state'))"

declare TraceEdge.simps [code]



text \<open>
  Lines 189-625: the loop over the edges of the first face. Between two edges the state
  is the current face of the second mesh, the traced path, the overlap mesh and the
  warnings; the current overlap node and the last intersection start afresh at each
  edge (lines 204-207).
\<close>

fun TraceEdges ::
  "'n MeshUtilities \<Rightarrow> 'n Mesh \<Rightarrow> 'n Mesh \<Rightarrow> int list \<Rightarrow> int \<Rightarrow> Face \<Rightarrow> nat list
     \<Rightarrow> int \<times> PathSegment list \<times> 'n Mesh \<times> string list
     \<Rightarrow> (error + int \<times> PathSegment list \<times> 'n Mesh \<times> string list) option" where
  "TraceEdges utils meshFirst meshSecond vecSecondNodeMap ixCurrentFirstFace faceFirstCurrent
      [] state = Some (Inr state)"
| "TraceEdges utils meshFirst meshSecond vecSecondNodeMap ixCurrentFirstFace faceFirstCurrent
      (i # is) (ixCurrentSecondFace, tracedPath, meshOverlap, out) =
     (case at (edges faceFirstCurrent) (int i) of
        Inl err \<Rightarrow> Some (Inl err)
      | Inr edgeFirstCurrent \<Rightarrow>
          if node0 edgeFirstCurrent = node1 edgeFirstCurrent then
            TraceEdges utils meshFirst meshSecond vecSecondNodeMap ixCurrentFirstFace
              faceFirstCurrent is (ixCurrentSecondFace, tracedPath, meshOverlap, out)
          else
            (case at (nodes meshFirst) (node0 edgeFirstCurrent) of
               Inl err \<Rightarrow> Some (Inl err)
             | Inr nodeFirstBegin \<Rightarrow>
            (case at (nodes meshFirst) (node1 edgeFirstCurrent) of
               Inl err \<Rightarrow> Some (Inl err)
             | Inr nodeFirstEnd \<Rightarrow>
            (case TraceEdge utils meshFirst meshSecond vecSecondNodeMap ixCurrentFirstFace
                    faceFirstCurrent i edgeFirstCurrent nodeFirstEnd
                    (ixCurrentSecondFace, node0 edgeFirstCurrent, nodeFirstBegin, tracedPath,
                     meshOverlap, out) of
               None \<Rightarrow> None
             | Some (Inl err) \<Rightarrow> Some (Inl err)
             | Some (Inr (ixCurrentSecondFace', ixOverlapNodeCurrent', nodeLastIntersection',
                          tracedPath', meshOverlap', out')) \<Rightarrow>
                 TraceEdges utils meshFirst meshSecond vecSecondNodeMap ixCurrentFirstFace
                   faceFirstCurrent is
                   (ixCurrentSecondFace', tracedPath', meshOverlap', out')))))"

text \<open>
  Lines 131-626. The starting face of the second mesh is the first one the kernel finds
  at the first node of the face; when the kernel finds several, the one the first edge
  enters.
\<close>

definition GeneratePath ::
  "'n MeshUtilities \<Rightarrow> 'n Mesh \<Rightarrow> 'n Mesh \<Rightarrow> int list \<Rightarrow> int \<Rightarrow> PathSegment list \<Rightarrow> 'n Mesh
     \<Rightarrow> string list
     \<Rightarrow> (error + int \<times> PathSegment list \<times> 'n Mesh \<times> string list) option" where
  "GeneratePath utils meshFirst meshSecond vecSecondNodeMap ixCurrentFirstFace tracedPath
      meshOverlap out =
     (case at (faces meshFirst) ixCurrentFirstFace of
        Inl err \<Rightarrow> Some (Inl err)
      | Inr faceFirstCurrent \<Rightarrow>
     (case FaceNode faceFirstCurrent 0 of
        Inl err \<Rightarrow> Some (Inl err)
      | Inr ixNode \<Rightarrow>
     (case at (nodes meshFirst) ixNode of
        Inl err \<Rightarrow> Some (Inl err)
      | Inr nodeCurrent \<Rightarrow>
          let aFindFaceStruct = FindFaceFromNode utils meshSecond nodeCurrent in
          if length (vecFaceIndices aFindFaceStruct) = 0 then
            Some (Inl (EXCEPTION ''No initial face found!''))
          else
            (case (if length (vecFaceIndices aFindFaceStruct) > 1 then
                     (case FaceNode faceFirstCurrent 1 of
                        Inl err \<Rightarrow> Inl err
                      | Inr ixNext \<Rightarrow>
                     (case at (nodes meshFirst) ixNext of
                        Inl err \<Rightarrow> Inl err
                      | Inr nodeNext \<Rightarrow>
                     (case at (edges faceFirstCurrent) 0 of
                        Inl err \<Rightarrow> Inl err
                      | Inr edgeFirst \<Rightarrow>
                          Inr (FindFaceNearNode utils meshSecond nodeCurrent nodeNext
                                 (type edgeFirst) aFindFaceStruct))))
                   else Inr (hd (vecFaceIndices aFindFaceStruct))) of
               Inl err \<Rightarrow> Some (Inl err)
             | Inr ixCurrentSecondFace \<Rightarrow>
                 TraceEdges utils meshFirst meshSecond vecSecondNodeMap ixCurrentFirstFace
                   faceFirstCurrent [0 ..< length (edges faceFirstCurrent)]
                   (ixCurrentSecondFace, tracedPath, meshOverlap, out)))))"

section \<open>GenerateOverlapMesh (lines 953-1027)\<close>

text \<open>
  Lines 995-1026: the loop over the faces of the first mesh. Each face is traced and the
  overlap faces of its path are generated before the next face is traced.
\<close>

fun FirstFacesLoop ::
  "'n MeshUtilities \<Rightarrow> 'n Mesh \<Rightarrow> 'n Mesh \<Rightarrow> int list \<Rightarrow> nat list \<Rightarrow> 'n Mesh \<times> string list
     \<Rightarrow> (error + 'n Mesh \<times> string list) option" where
  "FirstFacesLoop utils meshFirst meshSecond vecSecondNodeMap [] state = Some (Inr state)"
| "FirstFacesLoop utils meshFirst meshSecond vecSecondNodeMap (ixCurrentFirstFace # rest)
      (meshOverlap, out) =
     (case GeneratePath utils meshFirst meshSecond vecSecondNodeMap (int ixCurrentFirstFace)
             [] meshOverlap out of
        None \<Rightarrow> None
      | Some (Inl err) \<Rightarrow> Some (Inl err)
      | Some (Inr (ixSecondFaceLast, tracedPath, meshOverlap', out')) \<Rightarrow>
          (case GenerateOverlapFaces meshSecond vecSecondNodeMap tracedPath meshOverlap' of
             Inl err \<Rightarrow> Some (Inl err)
           | Inr (fSuccess, meshOverlap'') \<Rightarrow>
               if \<not> fSuccess then Some (Inl (EXCEPTION ''OverlapMesh generation failed''))
               else FirstFacesLoop utils meshFirst meshSecond vecSecondNodeMap rest
                      (meshOverlap'', out')))"

text \<open>
  Lines 953-1027. Both kernels are at hand (both headers are included) and
  \<open>USE_EXACT_ARITHMETIC\<close> is the define of Defines.h; \<open>BuildCoincidentNodeVector\<close> is
  not among the sources and is a parameter. \<open>Clear\<close> empties the overlap mesh.
\<close>

definition GenerateOverlapMesh ::
  "bool \<Rightarrow> 'n MeshUtilities \<Rightarrow> 'n MeshUtilities \<Rightarrow> ('n Mesh \<Rightarrow> 'n Mesh \<Rightarrow> int \<times> int list)
     \<Rightarrow> 'n Mesh \<Rightarrow> 'n Mesh \<Rightarrow> 'n Mesh \<Rightarrow> int \<Rightarrow> (error + 'n Mesh \<times> string list) option" where
  "GenerateOverlapMesh USE_EXACT_ARITHMETIC MeshUtilitiesFuzzy MeshUtilitiesExact
      BuildCoincidentNodeVector meshFirst meshSecond meshOverlap nVerbosity =
     (case InsertNodes (nodes meshFirst) (nodes meshSecond)
             (snd (BuildCoincidentNodeVector meshFirst meshSecond)) of
        Inl err \<Rightarrow> Some (Inl err)
      | Inr (nodevecOverlap, vecSecondNodeMap) \<Rightarrow>
          FirstFacesLoop MeshUtilitiesFuzzy meshFirst meshSecond vecSecondNodeMap
            [0 ..< length (faces meshFirst)]
            (meshOverlap\<lparr>nodes := nodevecOverlap, faces := [], edgemap := (\<lambda>e. None)\<rparr>, []))"

section \<open>Properties of the node array and the node map\<close>

lemma InsertSecondNodes_append:
  "i + length xs \<le> length m \<Longrightarrow> InsertSecondNodes xs m i ovl = Inr (ovl @ xs)"
  by (induction xs arbitrary: i ovl) (simp_all add: at_def Let_def)

lemma BuildSecondNodeMap_length:
  "length (BuildSecondNodeMap b i m) = length m"
  by (induction m arbitrary: i) simp_all

lemma BuildSecondNodeMap_nth:
  "j < length m \<Longrightarrow>
   BuildSecondNodeMap b i m ! j = (if m ! j = InvalidNode then b + int (i + j) else m ! j)"
proof (induction m arbitrary: i j)
  case Nil
  then show ?case by simp
next
  case (Cons v vs)
  show ?case
  proof (cases j)
    case 0
    then show ?thesis by simp
  next
    case (Suc k)
    with Cons.prems have "k < length vs" by simp
    from Cons.IH [OF this, of "Suc i"] Suc show ?thesis by simp
  qed
qed

lemma InsertNodes_eq:
  "length nodevecSecond \<le> length m \<Longrightarrow>
   InsertNodes nodevecFirst nodevecSecond m =
     Inr (nodevecFirst @ nodevecSecond, BuildSecondNodeMap (int (length nodevecFirst)) 0 m)"
  by (simp add: InsertNodes_def InsertSecondNodes_append)

text \<open>
  C10. After the placeholders of the node map are resolved, every node \<open>j\<close> of the
  second mesh that coincides with no node of the first mesh (its entry was
  \<open>InvalidNode\<close>) has the entry \<open>|F.nodes| + j\<close>, the overlap node at that index is
  node \<open>j\<close> of the second mesh, and the nodes of the first mesh keep their indices.
\<close>

theorem InsertNodes_new_second_node:
  assumes "length vecSecondNodeMap = length nodevecSecond"
    and "j < length nodevecSecond"
    and "vecSecondNodeMap ! j = InvalidNode"
  shows "case InsertNodes nodevecFirst nodevecSecond vecSecondNodeMap of
           Inl e \<Rightarrow> False
         | Inr (ovl, m) \<Rightarrow>
             m ! j = int (length nodevecFirst) + int j
             \<and> at ovl (m ! j) = Inr (nodevecSecond ! j)
             \<and> take (length nodevecFirst) ovl = nodevecFirst"
proof -
  let ?m = "BuildSecondNodeMap (int (length nodevecFirst)) 0 vecSecondNodeMap"
  have run: "InsertNodes nodevecFirst nodevecSecond vecSecondNodeMap
      = Inr (nodevecFirst @ nodevecSecond, ?m)"
    using assms(1) by (simp add: InsertNodes_eq)
  have entry: "?m ! j = int (length nodevecFirst) + int j"
    using assms by (simp add: BuildSecondNodeMap_nth)
  have "at (nodevecFirst @ nodevecSecond) (int (length nodevecFirst) + int j)
      = Inr (nodevecSecond ! j)"
    using assms(2) by (simp add: at_def nth_append nat_add_distrib)
  with run entry show ?thesis by simp
qed

theorem InsertNodes_new_second_node_witness:
  "length [1, InvalidNode] = length [11, 12 :: nat] \<and> [1, InvalidNode] ! 1 = InvalidNode
     \<and> InsertNodes [10, 11 :: nat] [11, 12] [1, InvalidNode] = Inr ([10, 11, 11, 12], [1, 3])
     \<and> at [10, 11, 11, 12 :: nat] 3 = Inr 12"
proof -
  have entry: "[1, InvalidNode] ! 1 = InvalidNode" by simp
  have run: "InsertNodes [10, 11 :: nat] [11, 12] [1, InvalidNode] = Inr ([10, 11, 11, 12], [1, 3])"
    by (simp add: InsertNodes_def at_def InvalidNode_def)
  from InsertNodes_new_second_node [of "[1, InvalidNode]" "[11, 12 :: nat]" 1 "[10, 11]"] entry run
  show ?thesis by (simp add: at_def)
qed

lemma BuildSecondNodeMap_not_named:
  assumes "\<forall>v \<in> set vecSecondNodeMap. v = InvalidNode \<or> (0 \<le> v \<and> v < b)"
    and "j < length vecSecondNodeMap"
    and "vecSecondNodeMap ! j \<noteq> InvalidNode"
  shows "b + int j \<notin> set (BuildSecondNodeMap b 0 vecSecondNodeMap)"
proof
  assume "b + int j \<in> set (BuildSecondNodeMap b 0 vecSecondNodeMap)"
  then obtain i where i: "i < length vecSecondNodeMap"
    and entry: "BuildSecondNodeMap b 0 vecSecondNodeMap ! i = b + int j"
    by (auto simp: in_set_conv_nth BuildSecondNodeMap_length)
  from i assms(1) have range: "vecSecondNodeMap ! i = InvalidNode
      \<or> (0 \<le> vecSecondNodeMap ! i \<and> vecSecondNodeMap ! i < b)"
    by simp
  show False
  proof (cases "vecSecondNodeMap ! i = InvalidNode")
    case True
    with entry i have "i = j" by (simp add: BuildSecondNodeMap_nth)
    with True assms(3) show False by simp
  next
    case False
    with entry i have "vecSecondNodeMap ! i = b + int j" by (simp add: BuildSecondNodeMap_nth)
    with range False show False by simp
  qed
qed

text \<open>
  C1 (as the code has it). The node map that \<open>BuildCoincidentNodeVector\<close> returns holds,
  for each node of the second mesh, the index of the coincident node of the first mesh
  or \<open>InvalidNode\<close>. When the entry of node \<open>j\<close> of the second mesh names the coincident
  node \<open>k\<close> of the first mesh, resolving the map leaves the entry at \<open>k\<close> and overlap
  node \<open>k\<close> is that node of the first mesh. The node of the second mesh is pushed all the
  same ("Insert all nodes from the two NodeVectors"): the overlap mesh starts with
  \<open>|F.nodes| + |S.nodes|\<close> nodes and holds node \<open>j\<close> of the second mesh at index
  \<open>|F.nodes| + j\<close>, which no entry of the resolved map names.
\<close>

theorem InsertNodes_coincident_node:
  assumes "length vecSecondNodeMap = length nodevecSecond"
    and "\<forall>v \<in> set vecSecondNodeMap.
           v = InvalidNode \<or> (0 \<le> v \<and> v < int (length nodevecFirst))"
    and "j < length nodevecSecond"
    and "vecSecondNodeMap ! j = k" and "0 \<le> k" and "k < int (length nodevecFirst)"
  shows "case InsertNodes nodevecFirst nodevecSecond vecSecondNodeMap of
           Inl e \<Rightarrow> False
         | Inr (ovl, m) \<Rightarrow>
             m ! j = k
             \<and> at ovl k = Inr (nodevecFirst ! nat k)
             \<and> length ovl = length nodevecFirst + length nodevecSecond
             \<and> at ovl (int (length nodevecFirst) + int j) = Inr (nodevecSecond ! j)
             \<and> int (length nodevecFirst) + int j \<notin> set m"
proof -
  let ?m = "BuildSecondNodeMap (int (length nodevecFirst)) 0 vecSecondNodeMap"
  have run: "InsertNodes nodevecFirst nodevecSecond vecSecondNodeMap
      = Inr (nodevecFirst @ nodevecSecond, ?m)"
    using assms(1) by (simp add: InsertNodes_eq)
  have valid: "k \<noteq> InvalidNode"
    using assms(5) by (simp add: InvalidNode_def)
  then have entry: "?m ! j = k"
    using assms(1,3,4) by (simp add: BuildSecondNodeMap_nth)
  have "nat k < length nodevecFirst"
    using assms(5,6) by linarith
  then have first: "at (nodevecFirst @ nodevecSecond) k = Inr (nodevecFirst ! nat k)"
    using assms(5,6) by (simp add: at_def nth_append)
  have second: "at (nodevecFirst @ nodevecSecond) (int (length nodevecFirst) + int j)
      = Inr (nodevecSecond ! j)"
    using assms(3) by (simp add: at_def nth_append nat_add_distrib)
  have unnamed: "int (length nodevecFirst) + int j \<notin> set ?m"
    using assms(1,3,4) valid by (intro BuildSecondNodeMap_not_named [OF assms(2)]) simp_all
  from run entry first second unnamed show ?thesis by simp
qed

theorem InsertNodes_coincident_node_witness:
  "length [1, InvalidNode] = length [11, 12 :: nat] \<and> [1, InvalidNode] ! 0 = (1 :: int)
     \<and> list_all (\<lambda>v. v = InvalidNode \<or> (0 \<le> v \<and> v < int (length [10, 11 :: nat])))
         [1, InvalidNode]
     \<and> InsertNodes [10, 11 :: nat] [11, 12] [1, InvalidNode] = Inr ([10, 11, 11, 12], [1, 3])
     \<and> at [10, 11, 11, 12 :: nat] 1 = Inr 11 \<and> at [10, 11, 11, 12 :: nat] 2 = Inr 11
     \<and> (2 :: int) \<notin> set [1, 3]"
proof -
  have run: "InsertNodes [10, 11 :: nat] [11, 12] [1, InvalidNode] = Inr ([10, 11, 11, 12], [1, 3])"
    by (simp add: InsertNodes_def at_def InvalidNode_def)
  have contract: "\<forall>v \<in> set [1, InvalidNode].
      v = InvalidNode \<or> (0 \<le> v \<and> v < int (length [10, 11 :: nat]))"
    by simp
  from InsertNodes_coincident_node [of "[1, InvalidNode]" "[11, 12 :: nat]" "[10, 11]" 0 1,
      OF _ contract] run
  show ?thesis by (simp add: at_def)
qed

text \<open>
  The claim as the spec words it fails: with one node in each mesh, the two coincident,
  the overlap mesh holds the point twice.
\<close>

theorem InsertNodes_duplicate_counterexample:
  "InsertNodes [10 :: nat] [10] [0] = Inr ([10, 10], [0])
     \<and> count_list [10, 10 :: nat] 10 = 2"
  by (simp add: InsertNodes_def at_def InvalidNode_def)

section \<open>Properties of the face assembler\<close>

lemma PhaseBStep_count:
  "PhaseBStep ms m path origin cur fsc (n, rest) = Inr (ex, n', rest')
     \<Longrightarrow> (ex = InfiniteLoop \<longrightarrow> n' = n \<and> length (edges fsc) < n)
         \<and> (ex \<noteq> InfiniteLoop \<longrightarrow> n' = Suc n \<and> n \<le> length (edges fsc))"
  by (cases rest)
     (auto simp: PhaseBStep_def split: sum.splits if_splits option.splits prod.splits)

lemma PhaseB_count:
  "PhaseB ms m path origin cur fsc state = Inr (ex, n', rest')
     \<Longrightarrow> fst state \<le> Suc (length (edges fsc))
     \<Longrightarrow> n' \<le> Suc (length (edges fsc))
           \<and> (ex = InfiniteLoop \<longrightarrow> n' = Suc (length (edges fsc)))
           \<and> ex \<noteq> NextEdge"
proof (induction ms m path origin cur fsc state rule: PhaseB.induct)
  case (1 ms m path origin cur fsc state)
  note unfold = PhaseB.simps [of ms m path origin cur fsc state]
  obtain n rest where state: "state = (n, rest)" by (cases state)
  from "1.prems"(1) obtain ex1 n1 rest1
    where step: "PhaseBStep ms m path origin cur fsc state = Inr (ex1, n1, rest1)"
    by (auto simp: unfold split: sum.splits)
  note count = PhaseBStep_count [OF step [unfolded state]]
  show ?case
  proof (cases "ex1 = NextEdge")
    case True
    with "1.prems"(1) step
    have rec: "PhaseB ms m path origin cur fsc (n1, rest1) = Inr (ex, n', rest')"
      by (simp add: unfold)
    from count True have "fst (n1, rest1) \<le> Suc (length (edges fsc))" by simp
    from "1.IH" [OF step refl True rec this] show ?thesis .
  next
    case False
    with "1.prems"(1) step have "ex = ex1" "n' = n1"
      by (auto simp: unfold split: PhaseB_exit.splits)
    with count False "1.prems"(2) state show ?thesis by auto
  qed
qed


lemma PhaseB_guard:
  assumes "length (edges fsc) < n" and "at (edges fsc) ix = Inr e"
  shows "PhaseB ms m path origin cur fsc (n, j, ix, node, face, ta)
         = Inr (InfiniteLoop, n, j, ix, node, face, ta)"
proof -
  from assms have "PhaseBStep ms m path origin cur fsc (n, j, ix, node, face, ta)
      = Inr (InfiniteLoop, n, j, ix, node, face, ta)"
    by (simp add: PhaseBStep_def)
  then show ?thesis
    by (simp add: PhaseB.simps [of ms m path origin cur fsc "(n, j, ix, node, face, ta)"])
qed

text \<open>
  C3 (as the code has it). The loop around the interior of the current face of the
  second mesh always ends. The guard lets an iteration pass while \<open>nEdgesCompleted\<close> is
  at most the number of edges of the face, so up to \<open>|cur.edges| + 1\<close> iterations are
  performed; the loop ends by \<open>return false\<close> only when that many have passed, and an
  iteration entered after more than \<open>|cur.edges|\<close> iterations have passed reads the
  current edge of the face and does nothing else but \<open>return false\<close>, whatever the rest
  of the state.
\<close>

theorem PhaseB_iteration_guard:
  assumes "PhaseB meshSecond vecSecondNodeMap vecTracedPath ixOverlapOriginNode
             ixCurrentSecondFace faceSecondCurrent
             (0, j, ixCurrentSecondEdge, ixCurrentOverlapNode, faceOverlap, setSecondFacesToAdd)
           = Inr (ex, nEdgesCompleted, rest)"
  shows "nEdgesCompleted \<le> length (edges faceSecondCurrent) + 1
         \<and> (ex = InfiniteLoop \<longrightarrow> nEdgesCompleted = length (edges faceSecondCurrent) + 1)
         \<and> ex \<noteq> NextEdge
         \<and> (length (edges faceSecondCurrent) < n
              \<longrightarrow> at (edges faceSecondCurrent) ixEdge = Inr edgeSecondCurrent
              \<longrightarrow> PhaseB meshSecond vecSecondNodeMap vecTracedPath ixOverlapOriginNode
                    ixCurrentSecondFace faceSecondCurrent
                    (n, jAny, ixEdge, ixNode, faceAny, setAny)
                  = Inr (InfiniteLoop, n, jAny, ixEdge, ixNode, faceAny, setAny))"
  using PhaseB_count [OF assms] by (simp add: PhaseB_guard)

text \<open>A closed polygon: the last edge ends where the first edge starts.\<close>

definition ClosedFace :: "Face \<Rightarrow> bool" where
  "ClosedFace f = (edges f \<noteq> [] \<and> node1 (last (edges f)) = node0 (hd (edges f)))"

lemma PhaseA_face:
  "PhaseA path origin j face u = Inr (ex, j', face', u')
     \<Longrightarrow> \<exists>ys. face' = face @ ys \<and> ys \<noteq> [] \<and> hd ys = Edge.truncate (path ! j)
           \<and> (ex = HitOrigin \<longrightarrow> node1 (last ys) = origin)"
proof (induction path origin j face u rule: PhaseA.induct)
  case (1 path origin j face u)
  note unfold = PhaseA.simps [of path origin j face u]
  from "1.prems" have inb: "j < length path" "j < length u" and fresh: "\<not> u ! j"
    by (auto split: if_splits simp: unfold Let_def)
  let ?e = "Edge.truncate (path ! j)"
  show ?case
  proof (cases "inttype (path ! j) \<noteq> IntersectType_None \<or> node1 (path ! j) = origin")
    case True
    with "1.prems" inb fresh
    have "face' = face @ [?e]" "ex = HitOrigin \<longrightarrow> node1 (path ! j) = origin"
      by (auto split: if_splits simp: unfold Let_def)
    then show ?thesis by (simp add: Edge.defs)
  next
    case False
    with "1.prems" inb fresh
    have rec: "PhaseA path origin (Suc j) (face @ [?e]) (u[j := True])
        = Inr (ex, j', face', u')"
      by (simp add: unfold Let_def)
    from False inb fresh
    have "\<exists>ys. face' = (face @ [?e]) @ ys \<and> ys \<noteq> []
        \<and> hd ys = Edge.truncate (path ! Suc j)
        \<and> (ex = HitOrigin \<longrightarrow> node1 (last ys) = origin)"
      by (intro "1.IH" [OF _ refl _ refl _ _ rec]) auto
    then obtain ys where ys: "face' = (face @ [?e]) @ ys" "ys \<noteq> []"
      "ex = HitOrigin \<longrightarrow> node1 (last ys) = origin"
      by blast
    then have "face' = face @ (?e # ys) \<and> ?e # ys \<noteq> [] \<and> hd (?e # ys) = ?e
        \<and> (ex = HitOrigin \<longrightarrow> node1 (last (?e # ys)) = origin)"
      by simp
    then show ?thesis by blast
  qed
qed

lemma PhaseBStep_face:
  "PhaseBStep ms m path origin cur fsc (n, j, ix, node, face, ta)
       = Inr (ex, n', j', ix', node', face', ta')
     \<Longrightarrow> \<exists>ys. face' = face @ ys
           \<and> (ex = FaceClosed \<longrightarrow> ys \<noteq> [] \<and> node1 (last ys) = origin)"
  by (auto simp: PhaseBStep_def split: sum.splits if_splits option.splits prod.splits)

lemma PhaseB_face:
  "PhaseB ms m path origin cur fsc state = Inr (ex, n', j', ix', node', face', ta')
     \<Longrightarrow> \<exists>ys. face' = fst (snd (snd (snd (snd state)))) @ ys
           \<and> (ex = FaceClosed \<longrightarrow> ys \<noteq> [] \<and> node1 (last ys) = origin)"
proof (induction ms m path origin cur fsc state rule: PhaseB.induct)
  case (1 ms m path origin cur fsc state)
  note unfold = PhaseB.simps [of ms m path origin cur fsc state]
  obtain n j ix node face ta where state: "state = (n, j, ix, node, face, ta)"
    by (cases state)
  from "1.prems"(1) obtain ex1 n1 j1 ix1 node1' face1 ta1
    where step: "PhaseBStep ms m path origin cur fsc state
        = Inr (ex1, n1, j1, ix1, node1', face1, ta1)"
    by (auto simp: unfold split: sum.splits)
  from PhaseBStep_face [OF step [unfolded state]]
  obtain ys1 where ys1: "face1 = face @ ys1"
    "ex1 = FaceClosed \<longrightarrow> ys1 \<noteq> [] \<and> node1 (last ys1) = origin"
    by blast
  show ?case
  proof (cases "ex1 = NextEdge")
    case True
    with "1.prems"(1) step
    have rec: "PhaseB ms m path origin cur fsc (n1, j1, ix1, node1', face1, ta1)
        = Inr (ex, n', j', ix', node', face', ta')"
      by (simp add: unfold)
    from "1.IH" [OF step refl True rec]
    obtain ys2 where ys2: "face' = face1 @ ys2"
      "ex = FaceClosed \<longrightarrow> ys2 \<noteq> [] \<and> node1 (last ys2) = origin"
      by auto
    with ys1 have "face' = face @ (ys1 @ ys2)
        \<and> (ex = FaceClosed \<longrightarrow> ys1 @ ys2 \<noteq> [] \<and> node1 (last (ys1 @ ys2)) = origin)"
      by simp
    with state show ?thesis by auto
  next
    case False
    with "1.prems"(1) step have "ex = ex1" "face' = face1"
      by (auto simp: unfold split: PhaseB_exit.splits)
    with ys1 state show ?thesis by auto
  qed
qed

lemma BuildFace_face:
  "BuildFace ms m path origin cur fsc j face u ta = Inr (True, face', u', ta')
     \<Longrightarrow> \<exists>ys. face' = face @ ys \<and> ys \<noteq> [] \<and> hd ys = Edge.truncate (path ! j)
           \<and> node1 (last ys) = origin"
proof (induction ms m path origin cur fsc j face u ta rule: BuildFace.induct)
  case (1 ms m path origin cur fsc j face u ta)
  note unfold = BuildFace.simps [of ms m path origin cur fsc j face u ta]
  from "1.prems" obtain exA jA faceA uA
    where a: "PhaseA path origin j face u = Inr (exA, jA, faceA, uA)"
    by (auto simp: unfold split: sum.splits)
  from PhaseA_face [OF a] obtain ys1
    where ys1: "faceA = face @ ys1" "ys1 \<noteq> []" "hd ys1 = Edge.truncate (path ! j)"
      "exA = HitOrigin \<longrightarrow> node1 (last ys1) = origin"
    by blast
  show ?case
  proof (cases exA)
    case HitOrigin
    with "1.prems" a have "face' = faceA" by (simp add: unfold)
    with ys1 HitOrigin show ?thesis by auto
  next
    case FoundBranch
    with "1.prems" a obtain seg exB n jB eB nB faceB taB
      where s: "at path (int jA) = Inr seg"
        and b: "PhaseB ms m path origin cur fsc (0, jA, ixIntersect seg, node1 seg, faceA, ta)
                  = Inr (exB, n, jB, eB, nB, faceB, taB)"
      by (auto simp: unfold split: sum.splits)
    from PhaseB_face [OF b] obtain ys2
      where ys2: "faceB = faceA @ ys2"
        "exB = FaceClosed \<longrightarrow> ys2 \<noteq> [] \<and> node1 (last ys2) = origin"
      by auto
    show ?thesis
    proof (cases "exB = ResumePath")
      case False
      with "1.prems" a s b FoundBranch have "face' = faceB" "exB = FaceClosed"
        by (auto simp: unfold)
      with ys1 ys2 have "face' = face @ (ys1 @ ys2) \<and> ys1 @ ys2 \<noteq> []
          \<and> hd (ys1 @ ys2) = Edge.truncate (path ! j) \<and> node1 (last (ys1 @ ys2)) = origin"
        by simp
      then show ?thesis by blast
    next
      case True
      with "1.prems" a s b FoundBranch
      have rec: "BuildFace ms m path origin cur fsc jB faceB uA taB = Inr (True, face', u', ta')"
        by (simp add: unfold)
      from "1.IH" [OF a refl refl refl FoundBranch s b refl refl refl refl refl refl True rec]
      obtain ys3 where ys3: "face' = faceB @ ys3" "ys3 \<noteq> []" "node1 (last ys3) = origin"
        by blast
      with ys1 ys2 have "face' = face @ (ys1 @ ys2 @ ys3) \<and> ys1 @ ys2 @ ys3 \<noteq> []
          \<and> hd (ys1 @ ys2 @ ys3) = Edge.truncate (path ! j)
          \<and> node1 (last (ys1 @ ys2 @ ys3)) = origin"
        by simp
      then show ?thesis by blast
    qed
  qed
qed

lemma BuildFace_closed:
  assumes "BuildFace ms m path (node0 (path ! j)) cur fsc j [] u ta = Inr (True, face', u', ta')"
  shows "ClosedFace \<lparr>edges = face'\<rparr>"
proof -
  from BuildFace_face [OF assms] obtain ys
    where "face' = [] @ ys" "ys \<noteq> []" "hd ys = Edge.truncate (path ! j)"
      "node1 (last ys) = node0 (path ! j)"
    by blast
  then show ?thesis by (simp add: ClosedFace_def Edge.defs)
qed


lemma AssembleFaces_closed:
  "AssembleFaces ms m path j u ta fo = Inr (ok, fo', ta')
     \<Longrightarrow> \<exists>new. fo' = fo @ new \<and> (\<forall>f \<in> set new. ClosedFace f)"
proof (induction ms m path j u ta fo rule: AssembleFaces.induct)
  case (1 ms m path j u ta fo)
  note unfold = AssembleFaces.simps [of ms m path j u ta fo]
  show ?case
  proof (cases "j < length path")
    case False
    with "1.prems" have "fo' = fo" by (simp add: unfold)
    then show ?thesis by simp
  next
    case inb: True
    with "1.prems" obtain used where used: "at u (int j) = Inr used"
      by (auto simp: unfold split: sum.splits)
    show ?thesis
    proof (cases used)
      case True
      with "1.prems" inb used
      have rec: "AssembleFaces ms m path (Suc j) u ta fo = Inr (ok, fo', ta')"
        by (simp add: unfold)
      from True have "used = True" by simp
      from "1.IH"(1) [OF inb used this rec] show ?thesis .
    next
      case False
      then have unused: "used = False" by simp
      from False "1.prems" inb used obtain fsc ok1 face u1 ta1
        where fsc: "at (faces ms) (ixSecondFace (path ! j)) = Inr fsc"
          and bf: "BuildFace ms m path (node0 (path ! j)) (ixSecondFace (path ! j)) fsc j []
                     u ta = Inr (ok1, face, u1, ta1)"
        by (auto simp: unfold split: sum.splits)
      show ?thesis
      proof (cases ok1)
        case notok: False
        with "1.prems" inb used False fsc bf have "fo' = fo" by (simp add: unfold)
        then show ?thesis by simp
      next
        case True
        with bf have closed: "ClosedFace \<lparr>edges = face\<rparr>"
          by (intro BuildFace_closed) simp
        show ?thesis
        proof (cases "length (filter (\<lambda>b. b) u1) = length path")
          case all: True
          with "1.prems" inb used False fsc bf True have "fo' = fo @ [\<lparr>edges = face\<rparr>]"
            by (simp add: unfold)
          with closed show ?thesis by simp
        next
          case more: False
          with "1.prems" inb used False fsc bf True
          have rec: "AssembleFaces ms m path (Suc 0) u1 ta1 (fo @ [\<lparr>edges = face\<rparr>])
              = Inr (ok, fo', ta')"
            by (simp add: unfold)
          have "\<not> \<not> ok1" using True by simp
          from "1.IH"(2) [OF inb used unused fsc bf refl refl refl this more rec]
          obtain new where "fo' = (fo @ [\<lparr>edges = face\<rparr>]) @ new" "\<forall>f \<in> set new. ClosedFace f"
            by blast
          with closed have "fo' = fo @ (\<lparr>edges = face\<rparr> # new)
              \<and> (\<forall>f \<in> set (\<lparr>edges = face\<rparr> # new). ClosedFace f)"
            by simp
          then show ?thesis by blast
        qed
      qed
    qed
  qed
qed

lemma MapEdges_map:
  "MapEdges m es = Inr es'
     \<Longrightarrow> es' = map (\<lambda>e. \<lparr>node0 = m ! nat (node0 e), node1 = m ! nat (node1 e),
                           type = type e\<rparr>) es"
  by (induction es arbitrary: es') (auto simp: at_def split: sum.splits if_splits)

lemma MapEdges_closed:
  assumes "MapEdges m (edges f) = Inr es'" and "ClosedFace f"
  shows "ClosedFace \<lparr>edges = es'\<rparr>"
  using assms(2) unfolding MapEdges_map [OF assms(1)] ClosedFace_def
  by (simp add: hd_map last_map)

lemma at_in_set: "at xs i = Inr x \<Longrightarrow> x \<in> set xs"
  by (auto simp: at_def split: if_splits)

lemma InteriorFaces_append:
  "InteriorFaces ms m passed rest added fo = Inr fo'
     \<Longrightarrow> \<exists>new. fo' = fo @ new
           \<and> ((\<forall>f \<in> set (faces ms). ClosedFace f) \<longrightarrow> (\<forall>f \<in> set new. ClosedFace f))"
proof (induction ms m passed rest added fo rule: InteriorFaces.induct)
  case (1 ms m passed added fo)
  then show ?case by (simp add: InteriorFaces.simps)
next
  case (2 ms m passed ix rest added fo)
  note unfold = InteriorFaces.simps(2) [of ms m passed ix rest added fo]
  let ?closed = "\<forall>f \<in> set (faces ms). ClosedFace f"
  from "2.prems"(1) obtain fsc es ta fm
    where fsc: "at (faces ms) ix = Inr fsc"
      and es: "MapEdges m (edges fsc) = Inr es"
      and nb: "AddFurtherFaces ms ix (set_insert ix added) (edges fsc) (passed @ ix # rest)
                 False = Inr (ta, fm)"
    by (auto simp: unfold split: sum.splits)
  have closed: "?closed \<longrightarrow> ClosedFace \<lparr>edges = es\<rparr>"
  proof
    assume ?closed
    with fsc have "ClosedFace fsc" by (auto dest: at_in_set)
    with es show "ClosedFace \<lparr>edges = es\<rparr>" by (rule MapEdges_closed)
  qed
  have "\<exists>new. fo' = (fo @ [\<lparr>edges = es\<rparr>]) @ new
      \<and> (?closed \<longrightarrow> (\<forall>f \<in> set new. ClosedFace f))"
  proof (cases fm)
    case True
    with "2.prems"(1) fsc es nb
    have rec: "InteriorFaces ms m [] (set_erase ix ta) (set_insert ix added)
        (fo @ [\<lparr>edges = es\<rparr>]) = Inr fo'"
      by (simp add: unfold)
    from "2.IH"(1) [OF fsc es nb refl True rec] show ?thesis .
  next
    case False
    with "2.prems"(1) fsc es nb
    have rec: "InteriorFaces ms m (passed @ [ix]) rest (set_insert ix added)
        (fo @ [\<lparr>edges = es\<rparr>]) = Inr fo'"
      by (simp add: unfold)
    from "2.IH"(2) [OF fsc es nb refl False rec] show ?thesis .
  qed
  then obtain new where "fo' = (fo @ [\<lparr>edges = es\<rparr>]) @ new"
    "?closed \<longrightarrow> (\<forall>f \<in> set new. ClosedFace f)"
    by blast
  with closed have "fo' = fo @ (\<lparr>edges = es\<rparr> # new)
      \<and> (?closed \<longrightarrow> (\<forall>f \<in> set (\<lparr>edges = es\<rparr> # new). ClosedFace f))"
    by simp
  then show ?case by blast
qed

lemma GenerateOverlapFaces_parts:
  assumes "GenerateOverlapFaces ms m path ovl = Inr (True, ovl')"
  shows "\<exists>assembled ta interior.
           AssembleFaces ms m path 0 (replicate (length path) False) [] (faces ovl)
             = Inr (True, faces ovl @ assembled, ta)
           \<and> InteriorFaces ms m [] (RemoveAddedFaces (SecondFacesOfPath path) ta)
               (SecondFacesOfPath path) (faces ovl @ assembled)
             = Inr (faces ovl @ assembled @ interior)
           \<and> ovl' = ovl\<lparr>faces := faces ovl @ assembled @ interior\<rparr>
           \<and> (\<forall>f \<in> set assembled. ClosedFace f)
           \<and> ((\<forall>f \<in> set (faces ms). ClosedFace f) \<longrightarrow> (\<forall>f \<in> set interior. ClosedFace f))"
proof -
  note unfold = GenerateOverlapFaces_def [of ms m path ovl]
  from assms obtain fo ta
    where asm: "AssembleFaces ms m path 0 (replicate (length path) False) [] (faces ovl)
        = Inr (True, fo, ta)"
    by (auto simp: unfold split: sum.splits if_splits)
  from AssembleFaces_closed [OF asm] obtain new1
    where new1: "fo = faces ovl @ new1" "\<forall>f \<in> set new1. ClosedFace f"
    by blast
  from assms asm obtain fo'
    where int: "InteriorFaces ms m [] (RemoveAddedFaces (SecondFacesOfPath path) ta)
        (SecondFacesOfPath path) fo = Inr fo'"
      and res: "ovl' = ovl\<lparr>faces := fo'\<rparr>"
    by (auto simp: unfold split: sum.splits)
  from InteriorFaces_append [OF int] obtain new2
    where new2: "fo' = fo @ new2"
      "(\<forall>f \<in> set (faces ms). ClosedFace f) \<longrightarrow> (\<forall>f \<in> set new2. ClosedFace f)"
    by blast
  from asm int res new1 new2 show ?thesis by auto
qed

text \<open>
  C4. Every overlap face that \<open>GenerateOverlapFaces\<close> appends, assembled from the path
  segments or copied from an interior face of the second mesh, is a closed polygon: its
  last edge ends at the node its first edge starts from. The faces of the second mesh
  are closed polygons, as the data model has them.
\<close>

theorem GenerateOverlapFaces_closed:
  assumes "\<forall>f \<in> set (faces meshSecond). ClosedFace f"
    and "GenerateOverlapFaces meshSecond vecSecondNodeMap vecTracedPath meshOverlap
           = Inr (fSuccess, meshOverlap')"
  shows "\<exists>new. faces meshOverlap' = faces meshOverlap @ new \<and> (\<forall>f \<in> set new. ClosedFace f)"
proof (cases fSuccess)
  case True
  from GenerateOverlapFaces_parts [OF assms(2) [unfolded True [THEN eqTrueI]]] assms(1)
  obtain assembled interior
    where "meshOverlap' = meshOverlap\<lparr>faces := faces meshOverlap @ assembled @ interior\<rparr>"
      "\<forall>f \<in> set assembled. ClosedFace f" "\<forall>f \<in> set interior. ClosedFace f"
    by blast
  then have "faces meshOverlap' = faces meshOverlap @ (assembled @ interior)
      \<and> (\<forall>f \<in> set (assembled @ interior). ClosedFace f)"
    by auto
  then show ?thesis by blast
next
  case False
  note unfold = GenerateOverlapFaces_def [of meshSecond vecSecondNodeMap vecTracedPath meshOverlap]
  from assms(2) False obtain fo ta
    where asm: "AssembleFaces meshSecond vecSecondNodeMap vecTracedPath 0
        (replicate (length vecTracedPath) False) [] (faces meshOverlap) = Inr (False, fo, ta)"
      and res: "faces meshOverlap' = fo"
    by (auto simp: unfold split: sum.splits if_splits)
  from AssembleFaces_closed [OF asm] res show ?thesis by simp
qed

text \<open>
  The faces of the second mesh that the path segments name are never among the interior
  faces added: they are taken out of \<open>setSecondFacesToAdd\<close> before the loop, and a
  neighbour is inserted only when it is not in \<open>setSecondFacesAdded\<close>, which holds them
  from the start. Each face the loop appends is a face of the second mesh with its nodes
  mapped.
\<close>

lemma RemoveAddedFaces_set:
  "set (RemoveAddedFaces added s) = set s - set added"
  unfolding RemoveAddedFaces_def
proof (induction added arbitrary: s)
  case Nil
  then show ?case by simp
next
  case (Cons a added)
  show ?case by (auto simp: Cons.IH)
qed

lemma SecondFacesOfPath_set:
  "set (SecondFacesOfPath path) = ixSecondFace ` set path"
proof -
  have "set (fold (\<lambda>seg s. set_insert (ixSecondFace seg) s) path s0)
      = ixSecondFace ` set path \<union> set s0" for s0
    by (induction path arbitrary: s0) auto
  then show ?thesis by (simp add: SecondFacesOfPath_def)
qed

lemma InteriorFaces_not_touched:
  assumes "InteriorFaces ms m passed rest added fo = Inr fo'"
    and "set touched \<subseteq> set added"
    and "set (passed @ rest) \<inter> set touched = {}"
  shows "\<exists>ixs new. fo' = fo @ new
           \<and> list_all2 (\<lambda>ix face. case at (faces ms) ix of
                 Inl err \<Rightarrow> False
               | Inr f \<Rightarrow> MapEdges m (edges f) = Inr (edges face)) ixs new
           \<and> set ixs \<inter> set touched = {}"
  using assms
proof (induction ms m passed rest added fo rule: InteriorFaces.induct)
  case (1 ms m passed added fo)
  then have "fo' = fo" by (simp add: InteriorFaces.simps)
  then show ?case by simp
next
  case (2 ms m passed ix rest added fo)
  note unfold = InteriorFaces.simps(2) [of ms m passed ix rest added fo]
  let ?R = "\<lambda>ix face. case at (faces ms) ix of
                 Inl err \<Rightarrow> False
               | Inr f \<Rightarrow> MapEdges m (edges f) = Inr (edges face)"
  from "2.prems"(1) obtain fsc es ta fm
    where f: "at (faces ms) ix = Inr fsc"
      and e: "MapEdges m (edges fsc) = Inr es"
      and a: "AddFurtherFaces ms ix (set_insert ix added) (edges fsc) (passed @ ix # rest) False
                = Inr (ta, fm)"
    by (auto simp: unfold split: sum.splits)
  from AddFurtherFaces_set [OF a]
  have new: "set ta \<subseteq> set (passed @ ix # rest) \<union> (- set (set_insert ix added))"
    by simp
  from "2.prems"(3) have fresh: "ix \<notin> set touched" by auto
  have sub: "set touched \<subseteq> set (set_insert ix added)"
    using "2.prems"(2) by auto
  have here: "?R ix \<lparr>edges = es\<rparr>" using f e by simp
  show ?case
  proof (cases fm)
    case True
    with "2.prems"(1) f e a
    have rec: "InteriorFaces ms m [] (set_erase ix ta) (set_insert ix added)
        (fo @ [\<lparr>edges = es\<rparr>]) = Inr fo'"
      by (simp add: unfold)
    have disj: "set ([] @ set_erase ix ta) \<inter> set touched = {}"
      using new "2.prems"(2,3) by auto
    from "2.IH"(1) [OF f e a refl True rec sub disj]
    obtain ixs new' where "fo' = (fo @ [\<lparr>edges = es\<rparr>]) @ new'" "list_all2 ?R ixs new'"
      "set ixs \<inter> set touched = {}"
      by blast
    with here fresh have "fo' = fo @ (\<lparr>edges = es\<rparr> # new') \<and> list_all2 ?R (ix # ixs) (\<lparr>edges = es\<rparr> # new')
        \<and> set (ix # ixs) \<inter> set touched = {}"
      by simp
    then show ?thesis by blast
  next
    case False
    with "2.prems"(1) f e a
    have rec: "InteriorFaces ms m (passed @ [ix]) rest (set_insert ix added)
        (fo @ [\<lparr>edges = es\<rparr>]) = Inr fo'"
      by (simp add: unfold)
    have disj: "set ((passed @ [ix]) @ rest) \<inter> set touched = {}"
      using "2.prems"(3) by auto
    from "2.IH"(2) [OF f e a refl False rec sub disj]
    obtain ixs new' where "fo' = (fo @ [\<lparr>edges = es\<rparr>]) @ new'" "list_all2 ?R ixs new'"
      "set ixs \<inter> set touched = {}"
      by blast
    with here fresh have "fo' = fo @ (\<lparr>edges = es\<rparr> # new') \<and> list_all2 ?R (ix # ixs) (\<lparr>edges = es\<rparr> # new')
        \<and> set (ix # ixs) \<inter> set touched = {}"
      by simp
    then show ?thesis by blast
  qed
qed

lemma GenerateOverlapFaces_touched_not_interior:
  assumes "GenerateOverlapFaces ms m path ovl = Inr (True, ovl')"
  shows "\<exists>assembled ta ixs interior.
           AssembleFaces ms m path 0 (replicate (length path) False) [] (faces ovl)
             = Inr (True, faces ovl @ assembled, ta)
           \<and> faces ovl' = faces ovl @ assembled @ interior
           \<and> list_all2 (\<lambda>ix face. case at (faces ms) ix of
                 Inl err \<Rightarrow> False
               | Inr f \<Rightarrow> MapEdges m (edges f) = Inr (edges face)) ixs interior
           \<and> set ixs \<inter> ixSecondFace ` set path = {}"
proof -
  from GenerateOverlapFaces_parts [OF assms] obtain assembled ta interior
    where asm: "AssembleFaces ms m path 0 (replicate (length path) False) [] (faces ovl)
        = Inr (True, faces ovl @ assembled, ta)"
      and int: "InteriorFaces ms m [] (RemoveAddedFaces (SecondFacesOfPath path) ta)
          (SecondFacesOfPath path) (faces ovl @ assembled)
        = Inr (faces ovl @ assembled @ interior)"
      and res: "ovl' = ovl\<lparr>faces := faces ovl @ assembled @ interior\<rparr>"
    by blast
  have disj: "set ([] @ RemoveAddedFaces (SecondFacesOfPath path) ta)
      \<inter> set (SecondFacesOfPath path) = {}"
    by (auto simp: RemoveAddedFaces_set)
  from InteriorFaces_not_touched [OF int subset_refl disj]
  obtain ixs new where "faces ovl @ assembled @ interior = (faces ovl @ assembled) @ new"
    and rel: "list_all2 (\<lambda>ix face. case at (faces ms) ix of
                 Inl err \<Rightarrow> False
               | Inr f \<Rightarrow> MapEdges m (edges f) = Inr (edges face)) ixs new"
    and touched: "set ixs \<inter> set (SecondFacesOfPath path) = {}"
    by blast
  then have "new = interior" by simp
  with asm res rel touched show ?thesis
    by (auto simp: SecondFacesOfPath_set)
qed

section \<open>Properties of the tracer\<close>

lemma at_error: "at xs i = Inl err \<Longrightarrow> err = OutOfBounds"
  by (auto simp: at_def split: if_splits)

lemma ScanSecondFace_coincident_cleared:
  "ScanSecondFace utils ovl sec e lastInt es j c ints = Inr (c', ints', found)
     \<Longrightarrow> (c \<longrightarrow> ints = []) \<Longrightarrow> (c' \<longrightarrow> ints' = [])"
proof (induction es arbitrary: j c ints)
  case Nil
  then show ?case by simp
next
  case (Cons g es)
  from Cons.prems(1) show ?case
    by (auto split: if_splits sum.splits prod.splits simp: Let_def
             dest!: Cons.IH)
qed

lemma ScanSecondFace_error:
  "ScanSecondFace utils ovl sec e lastInt es j c ints \<noteq> Inl (EXCEPTION ''Not implemented'')"
proof (induction es arbitrary: j c ints)
  case Nil
  then show ?case by simp
next
  case (Cons g es)
  show ?case
    using Cons.IH
    by (auto split: if_splits sum.splits prod.splits simp: Let_def dest: at_error)
qed

lemma GetEdgeIndexFrom_error:
  "GetEdgeIndexFrom gs e i = Inl err \<Longrightarrow> err \<noteq> EXCEPTION ''Not implemented''"
  by (induction gs arbitrary: i) (auto split: if_splits)

lemma EdgeFindFaceStruct_error:
  "EdgeFindFaceStruct ms fp e = Inl err \<Longrightarrow> err \<noteq> EXCEPTION ''Not implemented''"
  by (auto simp: EdgeFindFaceStruct_def GetEdgeIndex_def split: sum.splits
           dest: at_error GetEdgeIndexFrom_error)

lemma NextSecondFace_error:
  "NextSecondFace utils mf ms ff i ef f fsc ix g u0 u1 p cur node path out = Inl err
     \<Longrightarrow> err \<noteq> EXCEPTION ''Not implemented''"
  by (auto simp: NextSecondFace_def Let_def split: sum.splits option.splits if_splits
           dest: at_error EdgeFindFaceStruct_error)

lemma TraceStep_never_Not_implemented:
  "TraceStep utils mf ms m f ff i e nodeEnd state \<noteq> Inl (EXCEPTION ''Not implemented'')"
proof
  assume raised: "TraceStep utils mf ms m f ff i e nodeEnd state = Inl (EXCEPTION ''Not implemented'')"
  obtain cur node lastInt path ovl out where state: "state = (cur, node, lastInt, path, ovl, out)"
    by (cases state)
  from raised state obtain fsc where fsc: "at (faces ms) cur = Inr fsc"
    by (auto simp: TraceStep_def split: sum.splits dest: at_error)
  from raised state fsc obtain c ints found
    where scan: "ScanSecondFace utils (nodes ovl) (nodes ms) e lastInt (edges fsc) 0 False []
        = Inr (c, ints, found)"
    using ScanSecondFace_error [of utils "nodes ovl" "nodes ms" e lastInt "edges fsc" 0 False "[]"]
    by (auto simp: TraceStep_def split: sum.splits)
  from ScanSecondFace_coincident_cleared [OF scan] have clear: "c \<longrightarrow> ints = []"
    by simp
  from raised state fsc scan clear show False
    by (auto simp: TraceStep_def Let_def split: sum.splits option.splits if_splits
             dest: at_error EdgeFindFaceStruct_error NextSecondFace_error)
qed


text \<open>
  C7. When the intersection found is the end point of the current edge of the first face
  and the kernel's \<open>FindFaceNearNode\<close>, asked for the face that the next edge of the
  first face enters, answers the current face of the second mesh, the tracer prints the
  warning of the sub-case (the point is the first node of the edge of the second mesh,
  its second node, or a point inside the edge), pushes one segment with
  \<open>IntersectType_None\<close> from the current overlap node to the end of the edge, stays on
  the same face, and ends the loop of this edge without an exception. The hypotheses are
  the reads that the source performs on the way and the answers of the kernel.
\<close>

theorem TraceStep_face_does_not_change:
  assumes "at (faces meshSecond) ixCurrentSecondFace = Inr faceSecondCurrent"
    and "ScanSecondFace utils (nodes meshOverlap) (nodes meshSecond) edgeFirstCurrent
           nodeLastIntersection (edges faceSecondCurrent) 0 False []
           = Inr (False, [p], Some ixIntersectionSecondEdge)"
    and "at (edges faceSecondCurrent) (int ixIntersectionSecondEdge) = Inr edgeSecondCurrent"
    and "at (nodes meshSecond) (node0 edgeSecondCurrent) = Inr nodeSecondEdge0"
    and "at (nodes meshSecond) (node1 edgeSecondCurrent) = Inr nodeSecondEdge1"
    and "at (nodes meshOverlap) (node1 edgeFirstCurrent) = Inr nodeFirstEdge1"
    and "AreNodesEqual utils p nodeFirstEdge1"
    and "at (edges faceFirstCurrent) (int (Suc i mod length (edges faceFirstCurrent)))
           = Inr edgeFirstNext"
    and "edgemap meshSecond edgeSecondCurrent = Some facepair"
    and "at (nodes meshFirst) (node1 edgeFirstNext) = Inr nodeNextEnd"
    and "(AreNodesEqual utils p nodeSecondEdge0
            \<and> FindFaceNearNodeIx utils meshSecond (node0 edgeSecondCurrent) nodeNextEnd
                 (type edgeFirstNext) = ixCurrentSecondFace)
         \<or> (\<not> AreNodesEqual utils p nodeSecondEdge0 \<and> AreNodesEqual utils p nodeSecondEdge1
            \<and> FindFaceNearNodeIx utils meshSecond (node1 edgeSecondCurrent) nodeNextEnd
                 (type edgeFirstNext) = ixCurrentSecondFace)
         \<or> (\<not> AreNodesEqual utils p nodeSecondEdge0 \<and> \<not> AreNodesEqual utils p nodeSecondEdge1
            \<and> EdgeFindFaceStruct meshSecond facepair edgeSecondCurrent = Inr aNextFindFaceStruct
            \<and> at (nodes meshFirst) (node0 edgeFirstNext) = Inr nodeNextBegin
            \<and> FindFaceNearNode utils meshSecond nodeNextBegin nodeNextEnd
                 (type edgeFirstNext) aNextFindFaceStruct = ixCurrentSecondFace)"
  shows "TraceStep utils meshFirst meshSecond vecSecondNodeMap ixCurrentFirstFace
           faceFirstCurrent i edgeFirstCurrent nodeFirstEnd
           (ixCurrentSecondFace, ixOverlapNodeCurrent, nodeLastIntersection, tracedPath,
            meshOverlap, out)
         = Inr (False, ixCurrentSecondFace, node1 edgeFirstCurrent, p,
                tracedPath @ [PathSegmentNode ixOverlapNodeCurrent (node1 edgeFirstCurrent)
                  (type edgeFirstCurrent) ixCurrentFirstFace ixCurrentSecondFace
                  IntersectType_None (int ixIntersectionSecondEdge)],
                meshOverlap,
                out @ [if AreNodesEqual utils p nodeSecondEdge0
                       then ''WARNING: Face does not change across Edge (1)''
                       else if AreNodesEqual utils p nodeSecondEdge1
                       then ''WARNING: Face does not change across Edge (2)''
                       else ''WARNING: Face does not change across Edge (3)''])"
proof -
  let ?warning = "if AreNodesEqual utils p nodeSecondEdge0
                       then ''WARNING: Face does not change across Edge (1)''
                       else if AreNodesEqual utils p nodeSecondEdge1
                       then ''WARNING: Face does not change across Edge (2)''
                       else ''WARNING: Face does not change across Edge (3)''"
  from assms(8-11)
  have "NextSecondFace utils meshFirst meshSecond faceFirstCurrent i edgeFirstCurrent
      ixCurrentFirstFace faceSecondCurrent ixIntersectionSecondEdge edgeSecondCurrent
      nodeSecondEdge0 nodeSecondEdge1 p ixCurrentSecondFace ixOverlapNodeCurrent
      tracedPath out
    = Inr (ixCurrentSecondFace, tracedPath, out @ [?warning])"
    by (auto simp: NextSecondFace_def Let_def)
  with assms(1-7) show ?thesis by (simp add: TraceStep_def)
qed

lemma TraceStep_coincident_end:
  assumes "at (faces meshSecond) ixCurrentSecondFace = Inr faceSecondCurrent"
    and "ScanSecondFace utils (nodes meshOverlap) (nodes meshSecond) edgeFirstCurrent
           nodeLastIntersection (edges faceSecondCurrent) 0 False []
           = Inr (True, scanned, found)"
  shows "TraceStep utils meshFirst meshSecond vecSecondNodeMap ixCurrentFirstFace
           faceFirstCurrent i edgeFirstCurrent nodeFirstEnd
           (ixCurrentSecondFace, ixOverlapNodeCurrent, nodeLastIntersection, tracedPath,
            meshOverlap, out)
         = Inr (False, ixCurrentSecondFace, ixOverlapNodeCurrent, nodeLastIntersection,
                tracedPath @ [PathSegmentNode ixOverlapNodeCurrent (node1 edgeFirstCurrent)
                  (type edgeFirstCurrent) ixCurrentFirstFace ixCurrentSecondFace
                  IntersectType_None 0],
                meshOverlap, out)"
proof -
  from ScanSecondFace_coincident_cleared [OF assms(2)] have "scanned = []" by simp
  with assms show ?thesis by (simp add: TraceStep_def)
qed

text \<open>
  C2 (as the code has it). When the kernel reports the scanned edge of the second mesh
  coincident with the edge of the first face, the scan clears the intersections and
  goes on with the next edge of the face. No iteration of the tracer raises the
  exception "Not implemented" that follows the scan; an iteration whose scan ends with
  \<open>fCoincidentEdge\<close> set has no intersection left, pushes the segment with
  \<open>IntersectType_None\<close> from the current overlap node to the end of the edge of the first
  face and ends the loop of that edge, the current face and the current node unchanged.
\<close>

theorem ScanSecondFace_coincident_edge:
  assumes "node0 edgeSecondCurrent \<noteq> node1 edgeSecondCurrent"
    and "at nodevecOverlap (node0 edgeFirstCurrent) = Inr nodeA"
    and "at nodevecOverlap (node1 edgeFirstCurrent) = Inr nodeB"
    and "at nodevecSecond (node0 edgeSecondCurrent) = Inr nodeS0"
    and "at nodevecSecond (node1 edgeSecondCurrent) = Inr nodeS1"
    and "fst (CalculateEdgeIntersections utils nodeA nodeB (type edgeFirstCurrent)
                nodeS0 nodeS1 (type edgeSecondCurrent) nodeIntersections)"
  shows "ScanSecondFace utils nodevecOverlap nodevecSecond edgeFirstCurrent
           nodeLastIntersection (edgeSecondCurrent # es) j fCoincidentEdge nodeIntersections
         = ScanSecondFace utils nodevecOverlap nodevecSecond edgeFirstCurrent
             nodeLastIntersection es (Suc j) True []
         \<and> TraceStep utils meshFirst meshSecond vecSecondNodeMap ixCurrentFirstFace
             faceFirstCurrent i edgeFirstCurrent nodeFirstEnd
             (ixCurrentSecondFace, ixOverlapNodeCurrent, nodeLastIntersection, tracedPath,
              meshOverlap, out)
           \<noteq> Inl (EXCEPTION ''Not implemented'')
         \<and> (at (faces meshSecond) ixCurrentSecondFace = Inr faceSecondCurrent
              \<longrightarrow> ScanSecondFace utils (nodes meshOverlap) (nodes meshSecond) edgeFirstCurrent
                    nodeLastIntersection (edges faceSecondCurrent) 0 False []
                  = Inr (True, scanned, found)
              \<longrightarrow> TraceStep utils meshFirst meshSecond vecSecondNodeMap ixCurrentFirstFace
                    faceFirstCurrent i edgeFirstCurrent nodeFirstEnd
                    (ixCurrentSecondFace, ixOverlapNodeCurrent, nodeLastIntersection,
                     tracedPath, meshOverlap, out)
                  = Inr (False, ixCurrentSecondFace, ixOverlapNodeCurrent, nodeLastIntersection,
                         tracedPath @ [PathSegmentNode ixOverlapNodeCurrent
                           (node1 edgeFirstCurrent) (type edgeFirstCurrent) ixCurrentFirstFace
                           ixCurrentSecondFace IntersectType_None 0],
                         meshOverlap, out))"
proof -
  from assms(6) obtain calculated
    where "CalculateEdgeIntersections utils nodeA nodeB (type edgeFirstCurrent)
        nodeS0 nodeS1 (type edgeSecondCurrent) nodeIntersections = (True, calculated)"
    by (cases "CalculateEdgeIntersections utils nodeA nodeB (type edgeFirstCurrent)
        nodeS0 nodeS1 (type edgeSecondCurrent) nodeIntersections") simp
  with assms(1-5) have "ScanSecondFace utils nodevecOverlap nodevecSecond edgeFirstCurrent
      nodeLastIntersection (edgeSecondCurrent # es) j fCoincidentEdge nodeIntersections
    = ScanSecondFace utils nodevecOverlap nodevecSecond edgeFirstCurrent
        nodeLastIntersection es (Suc j) True []"
    by simp
  then show ?thesis
    by (intro conjI impI TraceStep_never_Not_implemented TraceStep_coincident_end)
qed

lemma TraceStep_faces:
  "TraceStep utils mf ms m f ff i e nodeEnd (cur, node, lastInt, path, ovl, out)
       = Inr (again, cur', node', lastInt', path', ovl', out')
     \<Longrightarrow> faces ovl' = faces ovl"
  by (auto simp: TraceStep_def Let_def split: sum.splits option.splits if_splits prod.splits)

lemma TraceEdge_faces_raw:
  assumes "TraceEdge utils mf ms m f ff i e nodeEnd state = Some r"
  shows "\<forall>state'. r = Inr state'
           \<longrightarrow> faces (fst (snd (snd (snd (snd state')))))
               = faces (fst (snd (snd (snd (snd state)))))"
proof (rule TraceEdge.raw_induct [where
    P = "\<lambda>utils mf ms m f ff i e nodeEnd state r. \<forall>state'. r = Inr state'
           \<longrightarrow> faces (fst (snd (snd (snd (snd state')))))
               = faces (fst (snd (snd (snd (snd state)))))", OF _ assms], goal_cases)
  case (1 rec utils mf ms m f ff i e nodeEnd state r)
  note IH = "1"(1) and prems = "1"(2)
  obtain cur node lastInt path ovl out where state: "state = (cur, node, lastInt, path, ovl, out)"
    by (cases state)
  show ?case
  proof (cases "TraceStep utils mf ms m f ff i e nodeEnd state")
    case (Inl err)
    with prems show ?thesis by auto
  next
    case (Inr b)
    obtain again cur1 node1' lastInt1 path1 ovl1 out1
      where b: "b = (again, cur1, node1', lastInt1, path1, ovl1, out1)"
      by (cases b)
    from TraceStep_faces [OF Inr [unfolded state b]] have step: "faces ovl1 = faces ovl" .
    show ?thesis
    proof (cases again)
      case True
      with prems Inr b
      have "rec utils mf ms m f ff i e nodeEnd (cur1, node1', lastInt1, path1, ovl1, out1) = Some r"
        by simp
      from IH [OF this] step state show ?thesis by simp
    next
      case False
      with prems Inr b have "r = Inr (cur1, node1', lastInt1, path1, ovl1, out1)"
        by simp
      with step state show ?thesis by simp
    qed
  qed
qed

lemma TraceEdge_faces:
  "TraceEdge utils mf ms m f ff i e nodeEnd (cur, node, lastInt, path, ovl, out)
       = Some (Inr (cur', node', lastInt', path', ovl', out'))
     \<Longrightarrow> faces ovl' = faces ovl"
  by (drule TraceEdge_faces_raw) simp

lemma TraceEdges_faces:
  "TraceEdges utils mf ms m f ff is (cur, path, ovl, out) = Some (Inr (cur', path', ovl', out'))
     \<Longrightarrow> faces ovl' = faces ovl"
proof (induction "is" arbitrary: cur path ovl out)
  case Nil
  then show ?case by simp
next
  case (Cons i "is")
  from Cons.prems obtain e where e: "at (edges ff) (int i) = Inr e"
    by (auto split: sum.splits)
  show ?case
  proof (cases "node0 e = node1 e")
    case True
    with Cons.prems e
    have "TraceEdges utils mf ms m f ff is (cur, path, ovl, out)
        = Some (Inr (cur', path', ovl', out'))"
      by simp
    then show ?thesis by (rule Cons.IH)
  next
    case False
    with Cons.prems e obtain nb ne cur1 node1' lastInt1 path1 ovl1 out1
      where "at (nodes mf) (node0 e) = Inr nb" "at (nodes mf) (node1 e) = Inr ne"
        and edge: "TraceEdge utils mf ms m f ff i e ne (cur, node0 e, nb, path, ovl, out)
          = Some (Inr (cur1, node1', lastInt1, path1, ovl1, out1))"
        and rest: "TraceEdges utils mf ms m f ff is (cur1, path1, ovl1, out1)
          = Some (Inr (cur', path', ovl', out'))"
      by (auto split: sum.splits option.splits)
    from TraceEdge_faces [OF edge] Cons.IH [OF rest] show ?thesis by simp
  qed
qed

lemma GeneratePath_faces:
  "GeneratePath utils mf ms m f path ovl out = Some (Inr (cur', path', ovl', out'))
     \<Longrightarrow> faces ovl' = faces ovl"
  by (auto simp: GeneratePath_def Let_def split: sum.splits if_splits dest: TraceEdges_faces)

lemma FirstFacesLoop_step:
  assumes "FirstFacesLoop utils meshFirst meshSecond vecSecondNodeMap
             (ixCurrentFirstFace # rest) (meshOverlap, out) = Some (Inr result)"
  shows "\<exists>ixLast tracedPath meshTraced outTraced assembled setSecondFacesToAdd interior.
           GeneratePath utils meshFirst meshSecond vecSecondNodeMap (int ixCurrentFirstFace)
               [] meshOverlap out
             = Some (Inr (ixLast, tracedPath, meshTraced, outTraced))
           \<and> faces meshTraced = faces meshOverlap
           \<and> GenerateOverlapFaces meshSecond vecSecondNodeMap tracedPath meshTraced
             = Inr (True, meshTraced\<lparr>faces := faces meshOverlap @ assembled @ interior\<rparr>)
           \<and> AssembleFaces meshSecond vecSecondNodeMap tracedPath 0
               (replicate (length tracedPath) False) [] (faces meshOverlap)
             = Inr (True, faces meshOverlap @ assembled, setSecondFacesToAdd)
           \<and> InteriorFaces meshSecond vecSecondNodeMap []
               (RemoveAddedFaces (SecondFacesOfPath tracedPath) setSecondFacesToAdd)
               (SecondFacesOfPath tracedPath) (faces meshOverlap @ assembled)
             = Inr (faces meshOverlap @ assembled @ interior)
           \<and> FirstFacesLoop utils meshFirst meshSecond vecSecondNodeMap rest
               (meshTraced\<lparr>faces := faces meshOverlap @ assembled @ interior\<rparr>, outTraced)
             = Some (Inr result)"
proof -
  from assms obtain ixLast tracedPath meshTraced outTraced
    where path: "GeneratePath utils meshFirst meshSecond vecSecondNodeMap
        (int ixCurrentFirstFace) [] meshOverlap out
        = Some (Inr (ixLast, tracedPath, meshTraced, outTraced))"
    by (auto split: option.splits sum.splits)
  from GeneratePath_faces [OF path] have same: "faces meshTraced = faces meshOverlap" .
  from assms path obtain meshFaces
    where gen: "GenerateOverlapFaces meshSecond vecSecondNodeMap tracedPath meshTraced
        = Inr (True, meshFaces)"
      and loop: "FirstFacesLoop utils meshFirst meshSecond vecSecondNodeMap rest
        (meshFaces, outTraced) = Some (Inr result)"
    by (auto split: sum.splits if_splits)
  from GenerateOverlapFaces_parts [OF gen] same obtain assembled ta interior
    where "AssembleFaces meshSecond vecSecondNodeMap tracedPath 0
          (replicate (length tracedPath) False) [] (faces meshOverlap)
        = Inr (True, faces meshOverlap @ assembled, ta)"
      "InteriorFaces meshSecond vecSecondNodeMap []
          (RemoveAddedFaces (SecondFacesOfPath tracedPath) ta)
          (SecondFacesOfPath tracedPath) (faces meshOverlap @ assembled)
        = Inr (faces meshOverlap @ assembled @ interior)"
      "meshFaces = meshTraced\<lparr>faces := faces meshOverlap @ assembled @ interior\<rparr>"
    by auto
  with path same gen loop show ?thesis by blast
qed

lemma FirstFacesLoop_groups:
  assumes "FirstFacesLoop utils meshFirst meshSecond vecSecondNodeMap fs state
             = Some (Inr result)"
  shows "\<exists>states groups.
           length states = length fs + 1 \<and> length groups = length fs
           \<and> hd states = state \<and> last states = result
           \<and> faces (fst result) = faces (fst state) @ concat groups
           \<and> (\<forall>i < length fs.
                \<exists>ixLast tracedPath meshTraced assembled setSecondFacesToAdd interior.
                  faces (fst (states ! i)) = faces (fst state) @ concat (take i groups)
                  \<and> GeneratePath utils meshFirst meshSecond vecSecondNodeMap (int (fs ! i)) []
                      (fst (states ! i)) (snd (states ! i))
                    = Some (Inr (ixLast, tracedPath, meshTraced, snd (states ! Suc i)))
                  \<and> faces meshTraced = faces (fst (states ! i))
                  \<and> GenerateOverlapFaces meshSecond vecSecondNodeMap tracedPath meshTraced
                    = Inr (True, fst (states ! Suc i))
                  \<and> AssembleFaces meshSecond vecSecondNodeMap tracedPath 0
                      (replicate (length tracedPath) False) [] (faces (fst (states ! i)))
                    = Inr (True, faces (fst (states ! i)) @ assembled, setSecondFacesToAdd)
                  \<and> InteriorFaces meshSecond vecSecondNodeMap []
                      (RemoveAddedFaces (SecondFacesOfPath tracedPath) setSecondFacesToAdd)
                      (SecondFacesOfPath tracedPath) (faces (fst (states ! i)) @ assembled)
                    = Inr (faces (fst (states ! i)) @ assembled @ interior)
                  \<and> groups ! i = assembled @ interior
                  \<and> faces (fst (states ! Suc i)) = faces (fst (states ! i)) @ groups ! i)"
  using assms
proof (induction fs arbitrary: state)
  case Nil
  then have res: "result = state" by simp
  show ?case
    apply (rule exI [where x = "[state]"])
    apply (rule exI [where x = "[]"])
    apply (simp add: res)
    done
next
  case (Cons ix rest)
  obtain ovl out where state: "state = (ovl, out)" by (cases state)
  from FirstFacesLoop_step [OF Cons.prems [unfolded state]]
  obtain ixLast path traced outTraced assembled ta interior
    where gp: "GeneratePath utils meshFirst meshSecond vecSecondNodeMap (int ix) [] ovl out
        = Some (Inr (ixLast, path, traced, outTraced))"
      and same: "faces traced = faces ovl"
      and gen: "GenerateOverlapFaces meshSecond vecSecondNodeMap path traced
        = Inr (True, traced\<lparr>faces := faces ovl @ assembled @ interior\<rparr>)"
      and asm: "AssembleFaces meshSecond vecSecondNodeMap path 0
          (replicate (length path) False) [] (faces ovl)
        = Inr (True, faces ovl @ assembled, ta)"
      and int: "InteriorFaces meshSecond vecSecondNodeMap []
          (RemoveAddedFaces (SecondFacesOfPath path) ta)
          (SecondFacesOfPath path) (faces ovl @ assembled)
        = Inr (faces ovl @ assembled @ interior)"
      and loop: "FirstFacesLoop utils meshFirst meshSecond vecSecondNodeMap rest
          (traced\<lparr>faces := faces ovl @ assembled @ interior\<rparr>, outTraced)
        = Some (Inr result)"
    by blast
  let ?next = "(traced\<lparr>faces := faces ovl @ assembled @ interior\<rparr>, outTraced)"
  let ?Step = "\<lambda>base fs states groups i.
      \<exists>ixLast tracedPath meshTraced assembled setSecondFacesToAdd interior.
                  faces (fst (states ! i)) = base @ concat (take i groups)
                  \<and> GeneratePath utils meshFirst meshSecond vecSecondNodeMap (int (fs ! i)) []
                      (fst (states ! i)) (snd (states ! i))
                    = Some (Inr (ixLast, tracedPath, meshTraced, snd (states ! Suc i)))
                  \<and> faces meshTraced = faces (fst (states ! i))
                  \<and> GenerateOverlapFaces meshSecond vecSecondNodeMap tracedPath meshTraced
                    = Inr (True, fst (states ! Suc i))
                  \<and> AssembleFaces meshSecond vecSecondNodeMap tracedPath 0
                      (replicate (length tracedPath) False) [] (faces (fst (states ! i)))
                    = Inr (True, faces (fst (states ! i)) @ assembled, setSecondFacesToAdd)
                  \<and> InteriorFaces meshSecond vecSecondNodeMap []
                      (RemoveAddedFaces (SecondFacesOfPath tracedPath) setSecondFacesToAdd)
                      (SecondFacesOfPath tracedPath) (faces (fst (states ! i)) @ assembled)
                    = Inr (faces (fst (states ! i)) @ assembled @ interior)
                  \<and> groups ! i = assembled @ interior
                  \<and> faces (fst (states ! Suc i)) = faces (fst (states ! i)) @ groups ! i"
  from Cons.IH [OF loop] obtain states groups
    where len: "length states = length rest + 1" "length groups = length rest"
      and ends: "hd states = ?next" "last states = result"
      and all: "faces (fst result) = faces (fst ?next) @ concat groups"
      and steps: "\<forall>i < length rest. ?Step (faces (fst ?next)) rest states groups i"
    by blast
  from len have ne: "states \<noteq> []" by auto
  with ends have first: "states ! 0 = ?next" by (simp add: hd_conv_nth)
  let ?states = "state # states"
  let ?groups = "(assembled @ interior) # groups"
  have "?Step (faces (fst state)) (ix # rest) ?states ?groups i" if "i < length (ix # rest)" for i
  proof (cases i)
    case 0
    with gp same gen asm int first state show ?thesis
      apply (rule_tac x = ixLast in exI)
      apply (rule_tac x = path in exI)
      apply (rule_tac x = traced in exI)
      apply (rule_tac x = assembled in exI)
      apply (rule_tac x = ta in exI)
      apply (rule_tac x = interior in exI)
      apply simp
      done
  next
    case (Suc k)
    with that have k: "k < length rest" by simp
    from steps [rule_format, OF k]
    have "?Step (faces (fst ?next)) rest states groups k" .
    then obtain ixLast' path' traced' assembled' ta' interior'
      where "faces (fst (states ! k)) = faces (fst ?next) @ concat (take k groups)"
        "GeneratePath utils meshFirst meshSecond vecSecondNodeMap (int (rest ! k)) []
            (fst (states ! k)) (snd (states ! k))
          = Some (Inr (ixLast', path', traced', snd (states ! Suc k)))"
        "faces traced' = faces (fst (states ! k))"
        "GenerateOverlapFaces meshSecond vecSecondNodeMap path' traced'
          = Inr (True, fst (states ! Suc k))"
        "AssembleFaces meshSecond vecSecondNodeMap path' 0
            (replicate (length path') False) [] (faces (fst (states ! k)))
          = Inr (True, faces (fst (states ! k)) @ assembled', ta')"
        "InteriorFaces meshSecond vecSecondNodeMap []
            (RemoveAddedFaces (SecondFacesOfPath path') ta')
            (SecondFacesOfPath path') (faces (fst (states ! k)) @ assembled')
          = Inr (faces (fst (states ! k)) @ assembled' @ interior')"
        "groups ! k = assembled' @ interior'"
        "faces (fst (states ! Suc k)) = faces (fst (states ! k)) @ groups ! k"
      by blast
    with Suc state show ?thesis
      apply (rule_tac x = ixLast' in exI)
      apply (rule_tac x = path' in exI)
      apply (rule_tac x = traced' in exI)
      apply (rule_tac x = assembled' in exI)
      apply (rule_tac x = ta' in exI)
      apply (rule_tac x = interior' in exI)
      apply simp
      done
  qed
  then have steps': "\<forall>i < length (ix # rest). ?Step (faces (fst state)) (ix # rest) ?states ?groups i"
    by blast
  have b1: "length ?states = length (ix # rest) + 1" using len by simp
  have b2: "length ?groups = length (ix # rest)" using len by simp
  have b3: "hd ?states = state" by simp
  have b4: "last ?states = result" using ends ne by simp
  have b5: "faces (fst result) = faces (fst state) @ concat ?groups"
    using all state by simp
  from b1 b2 b3 b4 b5 steps' show ?case
    apply (rule_tac x = "?states" in exI)
    apply (rule_tac x = "?groups" in exI)
    apply (intro conjI)
    apply assumption+
    done
qed

text \<open>
  C5 (as the code has it). The faces of the overlap mesh come in groups, one group for
  each face of the first mesh, in input order: when the loop over the first mesh
  returns, the faces of the overlap mesh are the faces there were before the loop
  followed by the groups, in the order of the faces of the first mesh. The group of a
  face holds the faces assembled from its path, in the order in which the assembler
  produces them, followed by the interior faces of the second mesh found for this face;
  tracing the face leaves the faces of the overlap mesh as they are, and the next face
  of the first mesh is traced on the overlap mesh so extended.
\<close>

theorem FirstFacesLoop_order:
  assumes "FirstFacesLoop utils meshFirst meshSecond vecSecondNodeMap fs (meshOverlap, out)
             = Some (Inr result)"
  shows "\<exists>states groups.
           length states = length fs + 1 \<and> length groups = length fs
           \<and> hd states = (meshOverlap, out) \<and> last states = result
           \<and> faces (fst result) = faces meshOverlap @ concat groups
           \<and> (\<forall>i < length fs.
                \<exists>ixLast tracedPath meshTraced assembled setSecondFacesToAdd interior.
                  faces (fst (states ! i)) = faces meshOverlap @ concat (take i groups)
                  \<and> GeneratePath utils meshFirst meshSecond vecSecondNodeMap (int (fs ! i)) []
                      (fst (states ! i)) (snd (states ! i))
                    = Some (Inr (ixLast, tracedPath, meshTraced, snd (states ! Suc i)))
                  \<and> faces meshTraced = faces (fst (states ! i))
                  \<and> GenerateOverlapFaces meshSecond vecSecondNodeMap tracedPath meshTraced
                    = Inr (True, fst (states ! Suc i))
                  \<and> AssembleFaces meshSecond vecSecondNodeMap tracedPath 0
                      (replicate (length tracedPath) False) [] (faces (fst (states ! i)))
                    = Inr (True, faces (fst (states ! i)) @ assembled, setSecondFacesToAdd)
                  \<and> InteriorFaces meshSecond vecSecondNodeMap []
                      (RemoveAddedFaces (SecondFacesOfPath tracedPath) setSecondFacesToAdd)
                      (SecondFacesOfPath tracedPath) (faces (fst (states ! i)) @ assembled)
                    = Inr (faces (fst (states ! i)) @ assembled @ interior)
                  \<and> groups ! i = assembled @ interior
                  \<and> faces (fst (states ! Suc i)) = faces (fst (states ! i)) @ groups ! i)"
  using FirstFacesLoop_groups [OF assms] unfolding fst_conv .

text \<open>
  C9. \<open>GenerateOverlapMesh\<close> traces with the fuzzy kernel: its result does not depend on
  the exact kernel nor on \<open>USE_EXACT_ARITHMETIC\<close>, and in a run that returns, every face
  of the first mesh, in input order, is traced by \<open>GeneratePath\<close> with the fuzzy kernel,
  on the overlap mesh that the faces before it have left (for the first face, the
  emptied overlap mesh holding the nodes of both meshes), and the overlap faces are
  generated from the path so traced.
\<close>

theorem GenerateOverlapMesh_kernel:
  "GenerateOverlapMesh USE_EXACT_ARITHMETIC MeshUtilitiesFuzzy MeshUtilitiesExact
       BuildCoincidentNodeVector meshFirst meshSecond meshOverlap nVerbosity
     = GenerateOverlapMesh USE_EXACT_ARITHMETIC' MeshUtilitiesFuzzy MeshUtilitiesExact'
         BuildCoincidentNodeVector meshFirst meshSecond meshOverlap nVerbosity
   \<and> (GenerateOverlapMesh USE_EXACT_ARITHMETIC MeshUtilitiesFuzzy MeshUtilitiesExact
         BuildCoincidentNodeVector meshFirst meshSecond meshOverlap nVerbosity
       = Some (Inr result)
      \<longrightarrow> (\<exists>nodevecOverlap vecSecondNodeMap states.
             InsertNodes (nodes meshFirst) (nodes meshSecond)
                 (snd (BuildCoincidentNodeVector meshFirst meshSecond))
               = Inr (nodevecOverlap, vecSecondNodeMap)
             \<and> length states = length (faces meshFirst) + 1
             \<and> hd states
                 = (meshOverlap\<lparr>nodes := nodevecOverlap, faces := [], edgemap := (\<lambda>e. None)\<rparr>, [])
             \<and> last states = result
             \<and> (\<forall>ixCurrentFirstFace < length (faces meshFirst).
                  \<exists>ixLast tracedPath meshTraced.
                    GeneratePath MeshUtilitiesFuzzy meshFirst meshSecond vecSecondNodeMap
                        (int ixCurrentFirstFace) [] (fst (states ! ixCurrentFirstFace))
                        (snd (states ! ixCurrentFirstFace))
                      = Some (Inr (ixLast, tracedPath, meshTraced,
                                   snd (states ! Suc ixCurrentFirstFace)))
                    \<and> GenerateOverlapFaces meshSecond vecSecondNodeMap tracedPath meshTraced
                      = Inr (True, fst (states ! Suc ixCurrentFirstFace)))))"
proof (intro conjI impI)
  show "GenerateOverlapMesh USE_EXACT_ARITHMETIC MeshUtilitiesFuzzy MeshUtilitiesExact
       BuildCoincidentNodeVector meshFirst meshSecond meshOverlap nVerbosity
     = GenerateOverlapMesh USE_EXACT_ARITHMETIC' MeshUtilitiesFuzzy MeshUtilitiesExact'
         BuildCoincidentNodeVector meshFirst meshSecond meshOverlap nVerbosity"
    by (simp add: GenerateOverlapMesh_def)
next
  let ?n = "length (faces meshFirst)"
  assume run: "GenerateOverlapMesh USE_EXACT_ARITHMETIC MeshUtilitiesFuzzy MeshUtilitiesExact
         BuildCoincidentNodeVector meshFirst meshSecond meshOverlap nVerbosity
       = Some (Inr result)"
  then obtain nodevecOverlap vecSecondNodeMap
    where ins: "InsertNodes (nodes meshFirst) (nodes meshSecond)
          (snd (BuildCoincidentNodeVector meshFirst meshSecond))
        = Inr (nodevecOverlap, vecSecondNodeMap)"
      and loop: "FirstFacesLoop MeshUtilitiesFuzzy meshFirst meshSecond vecSecondNodeMap
          [0 ..< ?n]
          (meshOverlap\<lparr>nodes := nodevecOverlap, faces := [], edgemap := (\<lambda>e. None)\<rparr>, [])
        = Some (Inr result)"
    by (auto simp: GenerateOverlapMesh_def split: sum.splits)
  from FirstFacesLoop_groups [OF loop] obtain states groups
    where len: "length states = length [0 ..< ?n] + 1"
      and ends: "hd states
          = (meshOverlap\<lparr>nodes := nodevecOverlap, faces := [], edgemap := (\<lambda>e. None)\<rparr>, [])"
        "last states = result"
      and steps: "\<forall>i < length [0 ..< ?n].
          \<exists>ixLast tracedPath meshTraced assembled setSecondFacesToAdd interior.
            faces (fst (states ! i))
              = faces (fst (meshOverlap\<lparr>nodes := nodevecOverlap, faces := [],
                              edgemap := (\<lambda>e. None)\<rparr>, [] :: string list))
                @ concat (take i groups)
            \<and> GeneratePath MeshUtilitiesFuzzy meshFirst meshSecond vecSecondNodeMap
                (int ([0 ..< ?n] ! i)) [] (fst (states ! i)) (snd (states ! i))
              = Some (Inr (ixLast, tracedPath, meshTraced, snd (states ! Suc i)))
            \<and> faces meshTraced = faces (fst (states ! i))
            \<and> GenerateOverlapFaces meshSecond vecSecondNodeMap tracedPath meshTraced
              = Inr (True, fst (states ! Suc i))
            \<and> AssembleFaces meshSecond vecSecondNodeMap tracedPath 0
                (replicate (length tracedPath) False) [] (faces (fst (states ! i)))
              = Inr (True, faces (fst (states ! i)) @ assembled, setSecondFacesToAdd)
            \<and> InteriorFaces meshSecond vecSecondNodeMap []
                (RemoveAddedFaces (SecondFacesOfPath tracedPath) setSecondFacesToAdd)
                (SecondFacesOfPath tracedPath) (faces (fst (states ! i)) @ assembled)
              = Inr (faces (fst (states ! i)) @ assembled @ interior)
            \<and> groups ! i = assembled @ interior
            \<and> faces (fst (states ! Suc i)) = faces (fst (states ! i)) @ groups ! i"
    by blast
  have traced: "\<exists>ixLast tracedPath meshTraced.
      GeneratePath MeshUtilitiesFuzzy meshFirst meshSecond vecSecondNodeMap
          (int i) [] (fst (states ! i)) (snd (states ! i))
        = Some (Inr (ixLast, tracedPath, meshTraced, snd (states ! Suc i)))
      \<and> GenerateOverlapFaces meshSecond vecSecondNodeMap tracedPath meshTraced
        = Inr (True, fst (states ! Suc i))" if "i < ?n" for i
  proof -
    from that have i: "i < length [0 ..< ?n]" by simp
    from steps [rule_format, OF i] that show ?thesis by auto
  qed
  from len have len': "length states = ?n + 1" by simp
  from ins len' ends traced
  show "\<exists>nodevecOverlap vecSecondNodeMap states.
             InsertNodes (nodes meshFirst) (nodes meshSecond)
                 (snd (BuildCoincidentNodeVector meshFirst meshSecond))
               = Inr (nodevecOverlap, vecSecondNodeMap)
             \<and> length states = length (faces meshFirst) + 1
             \<and> hd states
                 = (meshOverlap\<lparr>nodes := nodevecOverlap, faces := [], edgemap := (\<lambda>e. None)\<rparr>, [])
             \<and> last states = result
             \<and> (\<forall>ixCurrentFirstFace < length (faces meshFirst).
                  \<exists>ixLast tracedPath meshTraced.
                    GeneratePath MeshUtilitiesFuzzy meshFirst meshSecond vecSecondNodeMap
                        (int ixCurrentFirstFace) [] (fst (states ! ixCurrentFirstFace))
                        (snd (states ! ixCurrentFirstFace))
                      = Some (Inr (ixLast, tracedPath, meshTraced,
                                   snd (states ! Suc ixCurrentFirstFace)))
                    \<and> GenerateOverlapFaces meshSecond vecSecondNodeMap tracedPath meshTraced
                      = Inr (True, fst (states ! Suc ixCurrentFirstFace)))"
    apply (rule_tac x = nodevecOverlap in exI)
    apply (rule_tac x = vecSecondNodeMap in exI)
    apply (rule_tac x = states in exI)
    apply (intro conjI allI impI)
    apply assumption+
    done
qed

section \<open>Properties of the loop that traces one edge\<close>







section \<open>Worked examples\<close>

text \<open>
  The second mesh of the examples is a wheel on the sphere: a hub \<open>h\<close>, its antipode
  \<open>p\<close>, four spokes from \<open>h\<close> to \<open>p\<close> through \<open>e1\<close>, \<open>n1\<close>, \<open>w1\<close> and \<open>s1\<close>, a chord
  from \<open>e1\<close> to \<open>n1\<close> and a chord from \<open>w1\<close> to \<open>s1\<close> through \<open>m\<close>, with \<open>m\<close> joined to
  the hub. Faces 0 to 3 are the outer parts of the four sectors; faces 4, 5 and 6 are the
  triangles at the hub. The first mesh is a square around the hub, whose sides cross the
  four spokes beyond the chords, and the rest of the sphere.
\<close>

fun EdgeMapOf :: "((int \<times> int) \<times> FacePair) list \<Rightarrow> Edge \<Rightarrow> FacePair option" where
  "EdgeMapOf [] e = None"
| "EdgeMapOf (((a, b), facepair) # rest) e =
     (if (node0 e = a \<and> node1 e = b) \<or> (node0 e = b \<and> node1 e = a) then Some facepair
      else EdgeMapOf rest e)"

definition GreatCircleEdge :: "int \<times> int \<Rightarrow> Edge" where
  "GreatCircleEdge ab = \<lparr>node0 = fst ab, node1 = snd ab, type = Type_GreatCircleArc\<rparr>"

definition GreatCircleFace :: "(int \<times> int) list \<Rightarrow> Face" where
  "GreatCircleFace es = \<lparr>edges = map GreatCircleEdge es\<rparr>"

definition wheelSecond :: "string Mesh" where
  "wheelSecond =
     \<lparr>nodes = [''h'', ''p'', ''e1'', ''n1'', ''w1'', ''s1'', ''m''],
      faces = [GreatCircleFace [(2, 1), (1, 3), (3, 2)],
               GreatCircleFace [(0, 3), (3, 1), (1, 4), (4, 0)],
               GreatCircleFace [(4, 1), (1, 5), (5, 6), (6, 4)],
               GreatCircleFace [(0, 5), (5, 1), (1, 2), (2, 0)],
               GreatCircleFace [(0, 2), (2, 3), (3, 0)],
               GreatCircleFace [(0, 4), (4, 6), (6, 0)],
               GreatCircleFace [(0, 6), (6, 5), (5, 0)]],
      edgemap = EdgeMapOf
        [((2, 1), (0, 3)), ((1, 3), (0, 1)), ((3, 2), (0, 4)), ((0, 3), (1, 4)),
         ((1, 4), (1, 2)), ((4, 0), (1, 5)), ((1, 5), (2, 3)), ((5, 6), (2, 6)),
         ((6, 4), (2, 5)), ((0, 5), (3, 6)), ((2, 0), (3, 4)), ((6, 0), (5, 6))]\<rparr>"

text \<open>
  The wheel traced over itself (identical meshes): the kernel reports an edge coincident
  with itself, reports the common node of two edges that meet, and finds face 4 next to
  each node of face 4 in the direction of the next node of face 4.
\<close>

definition identicalKernel :: "string MeshUtilities" where
  "identicalKernel =
     \<lparr>AreNodesEqual = (\<lambda>a b. a = b),
      CalculateEdgeIntersections = (\<lambda>a b ta c d tc nodeIntersections.
        if (a = c \<and> b = d) \<or> (a = d \<and> b = c) then (True, [])
        else if b = c \<or> b = d then (False, [b])
        else if a = c \<or> a = d then (False, [a])
        else (False, [])),
      FindFaceFromNode = (\<lambda>mesh node.
        \<lparr>vecFaceIndices = [4], vecFaceLocations = [0], loc = NodeLocation_Corner\<rparr>),
      FindFaceNearNode = (\<lambda>mesh nodeBegin nodeEnd t s. 4),
      FindFaceNearNodeIx = (\<lambda>mesh ixNode nodeEnd t. 4)\<rparr>"

definition identicalOverlap :: "string Mesh" where
  "identicalOverlap =
     \<lparr>nodes = nodes wheelSecond @ nodes wheelSecond, faces = [], edgemap = (\<lambda>e. None)\<rparr>"

text \<open>
  A kernel that reports an edge coincident with itself and no intersection where two
  edges only share an end node.
\<close>

definition coincidentKernel :: "string MeshUtilities" where
  "coincidentKernel =
     \<lparr>AreNodesEqual = (\<lambda>a b. a = b),
      CalculateEdgeIntersections = (\<lambda>a b ta c d tc nodeIntersections.
        ((a = c \<and> b = d) \<or> (a = d \<and> b = c), [])),
      FindFaceFromNode = (\<lambda>mesh node.
        \<lparr>vecFaceIndices = [4], vecFaceLocations = [0], loc = NodeLocation_Corner\<rparr>),
      FindFaceNearNode = (\<lambda>mesh nodeBegin nodeEnd t s. 4),
      FindFaceNearNodeIx = (\<lambda>mesh ixNode nodeEnd t. 4)\<rparr>"

text \<open>
  The square over the wheel: \<open>FA\<close>, \<open>FB\<close>, \<open>FC\<close> and \<open>FD\<close> lie in faces 3, 0, 1 and
  2; the side from \<open>FA\<close> to \<open>FB\<close> crosses the spoke through \<open>e1\<close> at \<open>XE\<close>, and so on
  round the square. The kernel reports these four crossings and, at a crossing, the
  face on the side of the node the edge runs to.
\<close>

definition squareFirst :: "string Mesh" where
  "squareFirst =
     \<lparr>nodes = [''FA'', ''FB'', ''FC'', ''FD''],
      faces = [GreatCircleFace [(0, 1), (1, 2), (2, 3), (3, 0)],
               GreatCircleFace [(0, 3), (3, 2), (2, 1), (1, 0)]],
      edgemap = EdgeMapOf
        [((0, 1), (0, 1)), ((1, 2), (0, 1)), ((2, 3), (0, 1)), ((3, 0), (0, 1))]\<rparr>"

fun Crossing :: "((string \<times> string) \<times> (string \<times> string) \<times> string) list
    \<Rightarrow> string \<Rightarrow> string \<Rightarrow> string \<Rightarrow> string \<Rightarrow> string list" where
  "Crossing [] a b c d = []"
| "Crossing (((fa, fb), (sa, sb), x) # rest) a b c d =
     (if ((a = fa \<and> b = fb) \<or> (a = fb \<and> b = fa)) \<and> ((c = sa \<and> d = sb) \<or> (c = sb \<and> d = sa))
      then [x] else Crossing rest a b c d)"

definition wheelKernel :: "string MeshUtilities" where
  "wheelKernel =
     \<lparr>AreNodesEqual = (\<lambda>a b. a = b),
      CalculateEdgeIntersections = (\<lambda>a b ta c d tc nodeIntersections.
        (False, Crossing [((''FA'', ''FB''), (''e1'', ''p''), ''XE''),
                          ((''FB'', ''FC''), (''n1'', ''p''), ''XN''),
                          ((''FC'', ''FD''), (''w1'', ''p''), ''XW''),
                          ((''FD'', ''FA''), (''s1'', ''p''), ''XS'')] a b c d)),
      FindFaceFromNode = (\<lambda>mesh node.
        \<lparr>vecFaceIndices =
           (if node = ''FA'' then [3] else if node = ''FB'' then [0]
            else if node = ''FC'' then [1] else if node = ''FD'' then [2] else []),
         vecFaceLocations = [0], loc = NodeLocation_Interior\<rparr>),
      FindFaceNearNode = (\<lambda>mesh nodeBegin nodeEnd t s.
        if nodeBegin = ''XE'' then (if nodeEnd = ''FB'' then 0 else 3)
        else if nodeBegin = ''XN'' then (if nodeEnd = ''FC'' then 1 else 0)
        else if nodeBegin = ''XW'' then (if nodeEnd = ''FD'' then 2 else 1)
        else (if nodeEnd = ''FA'' then 3 else 2)),
      FindFaceNearNodeIx = (\<lambda>mesh ixNode nodeEnd t. 0)\<rparr>"

definition wheelNodeMap :: "int list" where
  "wheelNodeMap = [4, 5, 6, 7, 8, 9, 10]"

definition wheelOverlap :: "string Mesh" where
  "wheelOverlap =
     \<lparr>nodes = [''FA'', ''FB'', ''FC'', ''FD'', ''h'', ''p'', ''e1'', ''n1'', ''w1'', ''s1'', ''m''],
      faces = [], edgemap = (\<lambda>e. None)\<rparr>"

text \<open>The path the tracer generates round face 0 of the square.\<close>

definition wheelPath :: "PathSegment list" where
  "wheelPath =
     [PathSegmentEdge 0 11 Type_GreatCircleArc 0 3 2 (GreatCircleEdge (1, 2)),
      PathSegmentNode 11 1 Type_GreatCircleArc 0 0 IntersectType_None 0,
      PathSegmentEdge 1 12 Type_GreatCircleArc 0 0 1 (GreatCircleEdge (1, 3)),
      PathSegmentNode 12 2 Type_GreatCircleArc 0 1 IntersectType_None 0,
      PathSegmentEdge 2 13 Type_GreatCircleArc 0 1 2 (GreatCircleEdge (1, 4)),
      PathSegmentNode 13 3 Type_GreatCircleArc 0 2 IntersectType_None 0,
      PathSegmentEdge 3 14 Type_GreatCircleArc 0 2 1 (GreatCircleEdge (1, 5)),
      PathSegmentNode 14 0 Type_GreatCircleArc 0 3 IntersectType_None 0]"

definition wheelPathNext :: "PathSegment list" where
  "wheelPathNext =
     [PathSegmentEdge 0 15 Type_GreatCircleArc 1 3 1 (GreatCircleEdge (5, 1)),
      PathSegmentNode 15 3 Type_GreatCircleArc 1 2 IntersectType_None 0,
      PathSegmentEdge 3 16 Type_GreatCircleArc 1 2 0 (GreatCircleEdge (4, 1)),
      PathSegmentNode 16 2 Type_GreatCircleArc 1 1 IntersectType_None 0,
      PathSegmentEdge 2 17 Type_GreatCircleArc 1 1 1 (GreatCircleEdge (3, 1)),
      PathSegmentNode 17 1 Type_GreatCircleArc 1 0 IntersectType_None 0,
      PathSegmentEdge 1 18 Type_GreatCircleArc 1 0 0 (GreatCircleEdge (2, 1)),
      PathSegmentNode 18 0 Type_GreatCircleArc 1 3 IntersectType_None 0]"

text \<open>
  A triangle of the first mesh with a corner \<open>T\<close> on the spoke from \<open>e1\<close> to \<open>p\<close> and
  its other corners inside face 3 of the wheel: the edge from \<open>FA\<close> to \<open>T\<close> ends on the
  spoke, and the next edge goes back into face 3.
\<close>

definition teeFirst :: "string Mesh" where
  "teeFirst =
     \<lparr>nodes = [''FA'', ''T'', ''FC''],
      faces = [GreatCircleFace [(0, 1), (1, 2), (2, 0)]],
      edgemap = EdgeMapOf [((0, 1), (0, 0)), ((1, 2), (0, 0)), ((2, 0), (0, 0))]\<rparr>"

definition teeKernel :: "string MeshUtilities" where
  "teeKernel =
     \<lparr>AreNodesEqual = (\<lambda>a b. a = b),
      CalculateEdgeIntersections = (\<lambda>a b ta c d tc nodeIntersections.
        (False, Crossing [((''FA'', ''T''), (''e1'', ''p''), ''T'')] a b c d)),
      FindFaceFromNode = (\<lambda>mesh node.
        \<lparr>vecFaceIndices = [3], vecFaceLocations = [0], loc = NodeLocation_Interior\<rparr>),
      FindFaceNearNode = (\<lambda>mesh nodeBegin nodeEnd t s. 3),
      FindFaceNearNodeIx = (\<lambda>mesh ixNode nodeEnd t. 3)\<rparr>"

definition teeOverlap :: "string Mesh" where
  "teeOverlap =
     \<lparr>nodes = nodes teeFirst @ nodes wheelSecond, faces = [], edgemap = (\<lambda>e. None)\<rparr>"



definition stripBottom :: "nat \<Rightarrow> int" where
  "stripBottom k = int (2 * k)"

definition stripTop :: "nat \<Rightarrow> int" where
  "stripTop k = int (2 * k + 1)"














lemmas trace_defs = wheelSecond_def squareFirst_def wheelKernel_def wheelNodeMap_def
  wheelPath_def wheelPathNext_def GreatCircleFace_def GreatCircleEdge_def
  GeneratePath_def FaceNode_def TraceEdge.simps TraceStep_def
  EdgeFindFaceStruct_def GetEdgeIndex_def Edge_eq_def PathSegmentEdge_def
  PathSegmentNode_def at_def Let_def upt_rec

lemma wheel_path:
  "nodes ovl = [''FA'', ''FB'', ''FC'', ''FD'', ''h'', ''p'', ''e1'', ''n1'', ''w1'', ''s1'', ''m'']
   \<Longrightarrow> GeneratePath wheelKernel squareFirst wheelSecond wheelNodeMap 0 [] ovl []
     = Some (Inr (3, wheelPath, ovl\<lparr>nodes := nodes ovl @ [''XE'', ''XN'', ''XW'', ''XS'']\<rparr>, []))"
  by (simp add: trace_defs)

lemma wheel_path_next:
  "nodes ovl = [''FA'', ''FB'', ''FC'', ''FD'', ''h'', ''p'', ''e1'', ''n1'', ''w1'', ''s1'', ''m'',
                ''XE'', ''XN'', ''XW'', ''XS'']
   \<Longrightarrow> GeneratePath wheelKernel squareFirst wheelSecond wheelNodeMap 1 [] ovl []
     = Some (Inr (3, wheelPathNext,
          ovl\<lparr>nodes := nodes ovl @ [''XS'', ''XW'', ''XN'', ''XE'']\<rparr>, []))"
  by (simp add: trace_defs)

text \<open>The faces assembled from that path, and the faces assembled for face 1 of the square.\<close>

definition wheelAssembled :: "Face list" where
  "wheelAssembled =
     [GreatCircleFace [(0, 11), (11, 6), (6, 4), (4, 9), (9, 14), (14, 0)],
      GreatCircleFace [(11, 1), (1, 12), (12, 7), (7, 6), (6, 11)],
      GreatCircleFace [(12, 2), (2, 13), (13, 8), (8, 4), (4, 7), (7, 12)],
      GreatCircleFace [(13, 3), (3, 14), (14, 9), (9, 10), (10, 8), (8, 13)]]"

definition wheelInterior :: "Face list" where
  "wheelInterior =
     [GreatCircleFace [(4, 6), (6, 7), (7, 4)],
      GreatCircleFace [(4, 8), (8, 10), (10, 4)],
      GreatCircleFace [(4, 6), (6, 7), (7, 4)],
      GreatCircleFace [(4, 10), (10, 9), (9, 4)]]"

definition wheelAssembledNext :: "Face list" where
  "wheelAssembledNext =
     [GreatCircleFace [(0, 15), (15, 5), (5, 18), (18, 0)],
      GreatCircleFace [(15, 3), (3, 16), (16, 5), (5, 15)],
      GreatCircleFace [(16, 2), (2, 17), (17, 5), (5, 16)],
      GreatCircleFace [(17, 1), (1, 18), (18, 5), (5, 17)]]"

lemma wheel_touched: "SecondFacesOfPath wheelPath = [0, 1, 2, 3]"
  by code_simp

lemma wheel_assembled:
  "AssembleFaces wheelSecond wheelNodeMap wheelPath 0 (replicate (length wheelPath) False) [] []
     = Inr (True, wheelAssembled, [0, 1, 2, 3, 4, 5, 6])"
  by code_simp

lemma wheel_to_add: "RemoveAddedFaces [0, 1, 2, 3] [0, 1, 2, 3, 4, 5, 6] = [4, 5, 6]"
  by code_simp

lemma wheel_interior:
  "InteriorFaces wheelSecond wheelNodeMap [] [4, 5, 6] [0, 1, 2, 3] wheelAssembled
     = Inr (wheelAssembled @ wheelInterior)"
  by code_simp

lemma wheel_faces:
  "faces ovl = [] \<Longrightarrow>
   GenerateOverlapFaces wheelSecond wheelNodeMap wheelPath ovl
     = Inr (True, ovl\<lparr>faces := wheelAssembled @ wheelInterior\<rparr>)"
  by (simp add: GenerateOverlapFaces_def wheel_touched wheel_assembled wheel_to_add
        wheel_interior)

definition wheelResult :: "string Mesh" where
  "wheelResult =
     \<lparr>nodes = [''FA'', ''FB'', ''FC'', ''FD'', ''h'', ''p'', ''e1'', ''n1'', ''w1'', ''s1'', ''m'',
               ''XE'', ''XN'', ''XW'', ''XS'', ''XS'', ''XW'', ''XN'', ''XE''],
      faces = wheelAssembled @ wheelInterior @ wheelAssembledNext,
      edgemap = (\<lambda>e. None)\<rparr>"

lemma wheel_touched_next: "SecondFacesOfPath wheelPathNext = [0, 1, 2, 3]"
  by code_simp

lemma wheel_assembled_next:
  "AssembleFaces wheelSecond wheelNodeMap wheelPathNext 0
       (replicate (length wheelPathNext) False) [] (wheelAssembled @ wheelInterior)
     = Inr (True, wheelAssembled @ wheelInterior @ wheelAssembledNext, [0, 1, 2, 3])"
  by code_simp

lemma wheel_to_add_next: "RemoveAddedFaces [0, 1, 2, 3] [0, 1, 2, 3] = []"
  by code_simp

lemma wheel_faces_next:
  "faces ovl = wheelAssembled @ wheelInterior \<Longrightarrow>
   GenerateOverlapFaces wheelSecond wheelNodeMap wheelPathNext ovl
     = Inr (True, ovl\<lparr>faces := wheelAssembled @ wheelInterior @ wheelAssembledNext\<rparr>)"
  by (simp add: GenerateOverlapFaces_def wheel_touched_next wheel_assembled_next
        wheel_to_add_next InteriorFaces.simps)

text \<open>No node of the wheel coincides with a node of the square.\<close>

definition wheelCoincident :: "string Mesh \<Rightarrow> string Mesh \<Rightarrow> int \<times> int list" where
  "wheelCoincident meshFirst meshSecond = (0, replicate 7 InvalidNode)"

lemma wheel_nodes:
  "InsertNodes (nodes squareFirst) (nodes wheelSecond) (snd (wheelCoincident squareFirst wheelSecond))
     = Inr (nodes wheelOverlap, wheelNodeMap)"
  by code_simp

lemma wheel_loop:
  "FirstFacesLoop wheelKernel squareFirst wheelSecond wheelNodeMap [0, 1] (wheelOverlap, [])
     = Some (Inr (wheelResult, []))"
  by (simp add: wheel_path wheel_faces wheel_path_next wheel_faces_next wheelOverlap_def
        wheelResult_def)

lemma wheel_run:
  "GenerateOverlapMesh True wheelKernel wheelKernel wheelCoincident
     squareFirst wheelSecond wheelOverlap 0
   = Some (Inr (wheelResult, []))"
proof -
  have both: "[0 ..< length (faces squareFirst)] = [0, 1]"
    by (simp add: squareFirst_def upt_rec)
  have cleared: "wheelOverlap\<lparr>nodes := nodes wheelOverlap, faces := [], edgemap := (\<lambda>e. None)\<rparr>
      = wheelOverlap"
    by (simp add: wheelOverlap_def)
  have "GenerateOverlapMesh True wheelKernel wheelKernel wheelCoincident
      squareFirst wheelSecond wheelOverlap 0
    = FirstFacesLoop wheelKernel squareFirst wheelSecond wheelNodeMap
        [0 ..< length (faces squareFirst)]
        (wheelOverlap\<lparr>nodes := nodes wheelOverlap, faces := [], edgemap := (\<lambda>e. None)\<rparr>, [])"
    by (simp only: GenerateOverlapMesh_def wheel_nodes snd_conv sum.case prod.case)
  also have "\<dots> = FirstFacesLoop wheelKernel squareFirst wheelSecond wheelNodeMap [0, 1]
      (wheelOverlap, [])"
    by (simp only: both cleared)
  also note wheel_loop
  finally show ?thesis .
qed


subsection \<open>The face assembler on the wheel\<close>

theorem PhaseB_iteration_guard_witness:
  "PhaseB wheelSecond wheelNodeMap wheelPath 0 3
      (GreatCircleFace [(0, 5), (5, 1), (1, 2), (2, 0)])
      (0, 0, 2, 11, [GreatCircleEdge (0, 11)], [])
    = Inr (ResumePath, 4, 7, 1, 9,
           map GreatCircleEdge [(0, 11), (11, 6), (6, 4), (4, 9), (9, 14)], [0, 2, 4, 6])
   \<and> (4 :: nat) \<le> length (edges (GreatCircleFace [(0, 5), (5, 1), (1, 2), (2, 0)])) + 1
   \<and> length (edges (GreatCircleFace [(0, 5), (5, 1), (1, 2), (2, 0)])) < 5
   \<and> at (edges (GreatCircleFace [(0, 5), (5, 1), (1, 2), (2, 0)])) 2 = Inr (GreatCircleEdge (1, 2))
   \<and> PhaseB wheelSecond wheelNodeMap wheelPath 0 3
        (GreatCircleFace [(0, 5), (5, 1), (1, 2), (2, 0)])
        (5, 0, 2, 11, [GreatCircleEdge (0, 11)], [])
      = Inr (InfiniteLoop, 5, 0, 2, 11, [GreatCircleEdge (0, 11)], [])"
proof -
  have run: "PhaseB wheelSecond wheelNodeMap wheelPath 0 3
      (GreatCircleFace [(0, 5), (5, 1), (1, 2), (2, 0)])
      (0, 0, 2, 11, [GreatCircleEdge (0, 11)], [])
    = Inr (ResumePath, 4, 7, 1, 9,
           map GreatCircleEdge [(0, 11), (11, 6), (6, 4), (4, 9), (9, 14)], [0, 2, 4, 6])"
    by code_simp
  have size: "length (edges (GreatCircleFace [(0, 5), (5, 1), (1, 2), (2, 0)])) < 5"
    by (simp add: GreatCircleFace_def)
  have edge: "at (edges (GreatCircleFace [(0, 5), (5, 1), (1, 2), (2, 0)])) 2
      = Inr (GreatCircleEdge (1, 2))"
    by (simp add: GreatCircleFace_def at_def)
  from PhaseB_iteration_guard [OF run, of 5 2 "GreatCircleEdge (1, 2)" 0 11
      "[GreatCircleEdge (0, 11)]" "[]"] run size edge
  show ?thesis by simp
qed

text \<open>
  The claim as the spec words it fails: around the triangle at the hub (face 4, three
  edges), with a path that offers no exit, four iterations are performed before the
  guard ends the loop.
\<close>

theorem PhaseB_guard_counterexample:
  "PhaseB wheelSecond wheelNodeMap
      [PathSegmentEdge 0 11 Type_GreatCircleArc 0 4 0 (GreatCircleEdge (0, 2))] 0 4
      (GreatCircleFace [(0, 2), (2, 3), (3, 0)]) (0, 0, 0, 11, [], [])
    = Inr (InfiniteLoop, 4, 0, 1, 6,
           map GreatCircleEdge [(11, 6), (6, 7), (7, 4), (4, 6)], [0, 1, 3])
   \<and> length (edges (GreatCircleFace [(0, 2), (2, 3), (3, 0)])) = 3"
  by code_simp

theorem GenerateOverlapFaces_closed_witness:
  "list_all ClosedFace (faces wheelSecond)
   \<and> GenerateOverlapFaces wheelSecond wheelNodeMap wheelPath wheelOverlap
       = Inr (True, wheelOverlap\<lparr>faces := wheelAssembled @ wheelInterior\<rparr>)
   \<and> list_all ClosedFace (wheelAssembled @ wheelInterior)"
proof -
  have closed: "\<forall>f \<in> set (faces wheelSecond). ClosedFace f"
    by (simp add: wheelSecond_def GreatCircleFace_def GreatCircleEdge_def ClosedFace_def)
  have run: "GenerateOverlapFaces wheelSecond wheelNodeMap wheelPath wheelOverlap
      = Inr (True, wheelOverlap\<lparr>faces := wheelAssembled @ wheelInterior\<rparr>)"
    by (simp add: wheel_faces wheelOverlap_def)
  from GenerateOverlapFaces_closed [OF closed run]
  have "\<forall>f \<in> set (wheelAssembled @ wheelInterior). ClosedFace f"
    by (simp add: wheelOverlap_def)
  with closed run show ?thesis by (simp add: list_all_iff)
qed

text \<open>
  C6. The interior face 4 of the wheel is pushed twice for face 0 of the square: it has
  no neighbour to add when it is first added and stays in \<open>setSecondFacesToAdd\<close>; face 5
  then inserts its neighbour 6, the iterator goes back to \<open>begin()\<close>, and face 4 is
  added again. The faces that the path segments name are not among the faces added here
  (lemma \<open>GenerateOverlapFaces_touched_not_interior\<close>).
\<close>

theorem GenerateOverlapFaces_interior_face_twice:
  "GenerateOverlapFaces wheelSecond wheelNodeMap wheelPath
       (wheelOverlap\<lparr>nodes := nodes wheelOverlap @ [''XE'', ''XN'', ''XW'', ''XS'']\<rparr>)
     = Inr (True, wheelOverlap\<lparr>nodes := nodes wheelOverlap @ [''XE'', ''XN'', ''XW'', ''XS''],
                                faces := wheelAssembled @ wheelInterior\<rparr>)
   \<and> count_list (wheelAssembled @ wheelInterior) (GreatCircleFace [(4, 6), (6, 7), (7, 4)]) = 2"
proof -
  have "count_list (wheelAssembled @ wheelInterior) (GreatCircleFace [(4, 6), (6, 7), (7, 4)]) = 2"
    by code_simp
  then show ?thesis by (simp add: wheel_faces wheelOverlap_def)
qed

subsection \<open>The whole run on the wheel\<close>

text \<open>
  The claim of the order as the spec words it fails: overlap face 4 is an interior face
  of the wheel, pushed for face 0 of the square, and overlap face 8 is assembled from
  the path round face 1 of the square.
\<close>

theorem GenerateOverlapMesh_order_counterexample:
  "GenerateOverlapMesh True wheelKernel wheelKernel wheelCoincident squareFirst wheelSecond
       wheelOverlap 0
     = Some (Inr (wheelResult, []))
   \<and> faces wheelResult = wheelAssembled @ wheelInterior @ wheelAssembledNext
   \<and> faces wheelResult ! 4 = GreatCircleFace [(4, 6), (6, 7), (7, 4)]
   \<and> faces wheelResult ! 8 = GreatCircleFace [(0, 15), (15, 5), (5, 18), (18, 0)]"
  by (simp add: wheel_run wheelResult_def wheelAssembled_def wheelInterior_def
        wheelAssembledNext_def)

theorem FirstFacesLoop_order_witness:
  "FirstFacesLoop wheelKernel squareFirst wheelSecond wheelNodeMap [0, 1] (wheelOverlap, [])
     = Some (Inr (wheelResult, []))
   \<and> faces wheelResult = faces wheelOverlap @ wheelAssembled @ wheelInterior @ wheelAssembledNext
   \<and> (\<exists>states groups.
           length states = length [0 :: nat, 1] + 1 \<and> length groups = length [0 :: nat, 1]
           \<and> hd states = (wheelOverlap, []) \<and> last states = (wheelResult, [])
           \<and> faces (fst (wheelResult, [] :: string list)) = faces wheelOverlap @ concat groups
           \<and> (\<forall>i < length [0 :: nat, 1].
                \<exists>ixLast tracedPath meshTraced assembled setSecondFacesToAdd interior.
                  faces (fst (states ! i)) = faces wheelOverlap @ concat (take i groups)
                  \<and> GeneratePath wheelKernel squareFirst wheelSecond wheelNodeMap
                      (int ([0, 1] ! i)) [] (fst (states ! i)) (snd (states ! i))
                    = Some (Inr (ixLast, tracedPath, meshTraced, snd (states ! Suc i)))
                  \<and> faces meshTraced = faces (fst (states ! i))
                  \<and> GenerateOverlapFaces wheelSecond wheelNodeMap tracedPath meshTraced
                    = Inr (True, fst (states ! Suc i))
                  \<and> AssembleFaces wheelSecond wheelNodeMap tracedPath 0
                      (replicate (length tracedPath) False) [] (faces (fst (states ! i)))
                    = Inr (True, faces (fst (states ! i)) @ assembled, setSecondFacesToAdd)
                  \<and> InteriorFaces wheelSecond wheelNodeMap []
                      (RemoveAddedFaces (SecondFacesOfPath tracedPath) setSecondFacesToAdd)
                      (SecondFacesOfPath tracedPath) (faces (fst (states ! i)) @ assembled)
                    = Inr (faces (fst (states ! i)) @ assembled @ interior)
                  \<and> groups ! i = assembled @ interior
                  \<and> faces (fst (states ! Suc i)) = faces (fst (states ! i)) @ groups ! i))"
proof -
  have result: "faces wheelResult
      = faces wheelOverlap @ wheelAssembled @ wheelInterior @ wheelAssembledNext"
    by (simp add: wheelResult_def wheelOverlap_def)
  from wheel_loop result FirstFacesLoop_order [OF wheel_loop] show ?thesis
    by (intro conjI)
qed

theorem GenerateOverlapMesh_kernel_witness:
  "GenerateOverlapMesh True wheelKernel identicalKernel wheelCoincident
       squareFirst wheelSecond wheelOverlap 0
     = Some (Inr (wheelResult, []))
   \<and> GenerateOverlapMesh False wheelKernel wheelKernel wheelCoincident
       squareFirst wheelSecond wheelOverlap 0
     = Some (Inr (wheelResult, []))
   \<and> (\<exists>nodevecOverlap vecSecondNodeMap states.
         InsertNodes (nodes squareFirst) (nodes wheelSecond)
             (snd (wheelCoincident squareFirst wheelSecond))
           = Inr (nodevecOverlap, vecSecondNodeMap)
         \<and> length states = length (faces squareFirst) + 1
         \<and> hd states
             = (wheelOverlap\<lparr>nodes := nodevecOverlap, faces := [], edgemap := (\<lambda>e. None)\<rparr>, [])
         \<and> last states = (wheelResult, [])
         \<and> (\<forall>ixCurrentFirstFace < length (faces squareFirst).
              \<exists>ixLast tracedPath meshTraced.
                GeneratePath wheelKernel squareFirst wheelSecond vecSecondNodeMap
                    (int ixCurrentFirstFace) [] (fst (states ! ixCurrentFirstFace))
                    (snd (states ! ixCurrentFirstFace))
                  = Some (Inr (ixLast, tracedPath, meshTraced,
                               snd (states ! Suc ixCurrentFirstFace)))
                \<and> GenerateOverlapFaces wheelSecond vecSecondNodeMap tracedPath meshTraced
                  = Inr (True, fst (states ! Suc ixCurrentFirstFace))))"
proof -
  note kernel = GenerateOverlapMesh_kernel [where USE_EXACT_ARITHMETIC = True
      and MeshUtilitiesFuzzy = wheelKernel and MeshUtilitiesExact = wheelKernel
      and BuildCoincidentNodeVector = wheelCoincident and meshFirst = squareFirst
      and meshSecond = wheelSecond and meshOverlap = wheelOverlap and nVerbosity = 0
      and result = "(wheelResult, [])"]
  from kernel [where USE_EXACT_ARITHMETIC' = True and MeshUtilitiesExact' = identicalKernel]
    wheel_run
  have exact: "GenerateOverlapMesh True wheelKernel identicalKernel wheelCoincident
       squareFirst wheelSecond wheelOverlap 0 = Some (Inr (wheelResult, []))"
    by simp
  from kernel [where USE_EXACT_ARITHMETIC' = False and MeshUtilitiesExact' = wheelKernel]
    wheel_run
  have flag: "GenerateOverlapMesh False wheelKernel wheelKernel wheelCoincident
       squareFirst wheelSecond wheelOverlap 0 = Some (Inr (wheelResult, []))"
    by simp
  from exact flag kernel [THEN conjunct2, THEN mp, OF wheel_run] show ?thesis
    by (intro conjI)
qed

subsection \<open>The tracer on identical meshes\<close>

lemmas identical_defs = wheelSecond_def GreatCircleFace_def GreatCircleEdge_def
  identicalKernel_def identicalOverlap_def

lemmas coincident_defs = wheelSecond_def GreatCircleFace_def GreatCircleEdge_def
  coincidentKernel_def identicalOverlap_def

theorem ScanSecondFace_coincident_edge_witness:
  "fst (CalculateEdgeIntersections coincidentKernel ''n1'' ''h'' Type_GreatCircleArc
          ''n1'' ''h'' Type_GreatCircleArc [])
   \<and> ScanSecondFace coincidentKernel (nodes identicalOverlap) (nodes wheelSecond)
       (GreatCircleEdge (3, 0)) ''n1'' [GreatCircleEdge (3, 0)] 2 False []
     = Inr (True, [], None)
   \<and> at (faces wheelSecond) 4 = Inr (GreatCircleFace [(0, 2), (2, 3), (3, 0)])
   \<and> ScanSecondFace coincidentKernel (nodes identicalOverlap) (nodes wheelSecond)
       (GreatCircleEdge (3, 0)) ''n1'' (edges (GreatCircleFace [(0, 2), (2, 3), (3, 0)]))
       0 False []
     = Inr (True, [], None)
   \<and> TraceStep coincidentKernel wheelSecond wheelSecond [0, 1, 2, 3, 4, 5, 6] 4
       (GreatCircleFace [(0, 2), (2, 3), (3, 0)]) 2 (GreatCircleEdge (3, 0)) ''h''
       (4, 3, ''n1'', [], identicalOverlap, [])
     = Inr (False, 4, 3, ''n1'',
            [PathSegmentNode 3 0 Type_GreatCircleArc 4 4 IntersectType_None 0],
            identicalOverlap, [])"
proof -
  let ?face = "GreatCircleFace [(0, 2), (2, 3), (3, 0)]"
  have coincident: "fst (CalculateEdgeIntersections coincidentKernel ''n1'' ''h''
      (type (GreatCircleEdge (3, 0))) ''n1'' ''h'' (type (GreatCircleEdge (3, 0))) [])"
    by (simp add: coincident_defs)
  have edge: "node0 (GreatCircleEdge (3, 0)) \<noteq> node1 (GreatCircleEdge (3, 0))"
    by (simp add: GreatCircleEdge_def)
  have a: "at (nodes identicalOverlap) (node0 (GreatCircleEdge (3, 0))) = Inr ''n1''"
    and b: "at (nodes identicalOverlap) (node1 (GreatCircleEdge (3, 0))) = Inr ''h''"
    and c: "at (nodes wheelSecond) (node0 (GreatCircleEdge (3, 0))) = Inr ''n1''"
    and d: "at (nodes wheelSecond) (node1 (GreatCircleEdge (3, 0))) = Inr ''h''"
    by (simp_all add: coincident_defs at_def)
  have face: "at (faces wheelSecond) 4 = Inr ?face"
    by (simp add: coincident_defs at_def)
  have scan: "ScanSecondFace coincidentKernel (nodes identicalOverlap) (nodes wheelSecond)
      (GreatCircleEdge (3, 0)) ''n1'' (edges ?face) 0 False [] = Inr (True, [], None)"
    by (simp add: coincident_defs at_def)
  from ScanSecondFace_coincident_edge [where meshSecond = wheelSecond
      and ixCurrentSecondFace = 4 and faceSecondCurrent = ?face
      and nodeLastIntersection = "''n1''" and meshOverlap = identicalOverlap
      and scanned = "[]" and found = None and es = "[]" and j = 2 and fCoincidentEdge = False
      and meshFirst = wheelSecond and vecSecondNodeMap = "[0, 1, 2, 3, 4, 5, 6]"
      and ixCurrentFirstFace = 4 and faceFirstCurrent = ?face and i = 2
      and nodeFirstEnd = "''h''" and ixOverlapNodeCurrent = 3 and tracedPath = "[]"
      and out = "[]", OF edge a b c d coincident]
    coincident face scan
  show ?thesis by (simp add: GreatCircleEdge_def)
qed

text \<open>
  The claim as the spec words it fails: the first edge of face 4 of the wheel, traced
  over the wheel itself, is reported coincident with the first edge of the face, and the
  iteration ends with a segment pushed, not with an exception.
\<close>

theorem TraceStep_coincident_counterexample:
  "fst (CalculateEdgeIntersections identicalKernel ''h'' ''e1'' Type_GreatCircleArc
          ''h'' ''e1'' Type_GreatCircleArc [])
   \<and> TraceStep identicalKernel wheelSecond wheelSecond [0, 1, 2, 3, 4, 5, 6] 4
       (GreatCircleFace [(0, 2), (2, 3), (3, 0)]) 0 (GreatCircleEdge (0, 2)) ''e1''
       (4, 0, ''h'', [], identicalOverlap, [])
     = Inr (False, 4, 2, ''e1'',
            [PathSegmentNode 0 2 Type_GreatCircleArc 4 4 IntersectType_None 1],
            identicalOverlap, [''WARNING: Face does not change across Edge (1)''])"
  by (simp add: identical_defs TraceStep_def NextSecondFace_def at_def Let_def)

lemmas tee_defs = wheelSecond_def GreatCircleFace_def GreatCircleEdge_def
  teeFirst_def teeKernel_def teeOverlap_def

theorem TraceStep_face_does_not_change_witness:
  "AreNodesEqual identicalKernel ''n1'' ''n1''
   \<and> TraceStep identicalKernel wheelSecond wheelSecond [0, 1, 2, 3, 4, 5, 6] 4
       (GreatCircleFace [(0, 2), (2, 3), (3, 0)]) 1 (GreatCircleEdge (2, 3)) ''n1''
       (4, 2, ''e1'', [], identicalOverlap, [])
     = Inr (False, 4, 3, ''n1'',
            [PathSegmentNode 2 3 Type_GreatCircleArc 4 4 IntersectType_None 2],
            identicalOverlap, [''WARNING: Face does not change across Edge (1)''])
   \<and> TraceStep identicalKernel wheelSecond wheelSecond [0, 1, 2, 3, 4, 5, 6] 0
       (GreatCircleFace [(2, 1), (1, 3), (3, 2)]) 2 (GreatCircleEdge (3, 2)) ''e1''
       (4, 3, ''n1'', [], identicalOverlap, [])
     = Inr (False, 4, 2, ''e1'',
            [PathSegmentNode 3 2 Type_GreatCircleArc 0 4 IntersectType_None 0],
            identicalOverlap, [''WARNING: Face does not change across Edge (2)''])
   \<and> TraceStep teeKernel teeFirst wheelSecond [3, 4, 5, 6, 7, 8, 9] 0
       (GreatCircleFace [(0, 1), (1, 2), (2, 0)]) 0 (GreatCircleEdge (0, 1)) ''T''
       (3, 0, ''FA'', [], teeOverlap, [])
     = Inr (False, 3, 1, ''T'',
            [PathSegmentNode 0 1 Type_GreatCircleArc 0 3 IntersectType_None 2],
            teeOverlap, [''WARNING: Face does not change across Edge (3)''])"
proof -
  let ?hub = "GreatCircleFace [(0, 2), (2, 3), (3, 0)]"
  let ?outer = "GreatCircleFace [(2, 1), (1, 3), (3, 2)]"
  let ?sector = "GreatCircleFace [(0, 5), (5, 1), (1, 2), (2, 0)]"
  let ?tee = "GreatCircleFace [(0, 1), (1, 2), (2, 0)]"
  have eq: "AreNodesEqual identicalKernel ''n1'' ''n1''"
    by (simp add: identicalKernel_def)
  have hub: "at (faces wheelSecond) 4 = Inr ?hub"
    by (simp add: identical_defs at_def)
  have scan1: "ScanSecondFace identicalKernel (nodes identicalOverlap) (nodes wheelSecond)
      (GreatCircleEdge (2, 3)) ''e1'' (edges ?hub) 0 False [] = Inr (False, [''n1''], Some 2)"
    by (simp add: identical_defs at_def)
  have edge1: "at (edges ?hub) (int 2) = Inr (GreatCircleEdge (3, 0))"
    by (simp add: identical_defs at_def)
  have u1: "at (nodes wheelSecond) (node0 (GreatCircleEdge (3, 0))) = Inr ''n1''"
      "at (nodes wheelSecond) (node1 (GreatCircleEdge (3, 0))) = Inr ''h''"
      "at (nodes identicalOverlap) (node1 (GreatCircleEdge (2, 3))) = Inr ''n1''"
    by (simp_all add: identical_defs at_def)
  have next1: "at (edges ?hub) (int (Suc 1 mod length (edges ?hub))) = Inr (GreatCircleEdge (3, 0))"
      "edgemap wheelSecond (GreatCircleEdge (3, 0)) = Some (1, 4)"
      "at (nodes wheelSecond) (node1 (GreatCircleEdge (3, 0))) = Inr ''h''"
    by (simp_all add: identical_defs at_def)
  have kernel1: "AreNodesEqual identicalKernel ''n1'' ''n1''
      \<and> FindFaceNearNodeIx identicalKernel wheelSecond (node0 (GreatCircleEdge (3, 0))) ''h''
          (type (GreatCircleEdge (3, 0))) = 4"
    by (simp add: identicalKernel_def)
  note first = TraceStep_face_does_not_change [OF hub scan1 edge1 u1 eq next1 disjI1 [OF kernel1],
      where vecSecondNodeMap = "[0, 1, 2, 3, 4, 5, 6]" and ixCurrentFirstFace = 4
        and nodeFirstEnd = "''n1''" and ixOverlapNodeCurrent = 2 and tracedPath = "[]"
        and out = "[]"]
  have scan2: "ScanSecondFace identicalKernel (nodes identicalOverlap) (nodes wheelSecond)
      (GreatCircleEdge (3, 2)) ''n1'' (edges ?hub) 0 False [] = Inr (False, [''e1''], Some 0)"
    by (simp add: identical_defs at_def)
  have edge2: "at (edges ?hub) (int 0) = Inr (GreatCircleEdge (0, 2))"
    by (simp add: identical_defs at_def)
  have u2: "at (nodes wheelSecond) (node0 (GreatCircleEdge (0, 2))) = Inr ''h''"
      "at (nodes wheelSecond) (node1 (GreatCircleEdge (0, 2))) = Inr ''e1''"
      "at (nodes identicalOverlap) (node1 (GreatCircleEdge (3, 2))) = Inr ''e1''"
    by (simp_all add: identical_defs at_def)
  have eq2: "AreNodesEqual identicalKernel ''e1'' ''e1''"
    by (simp add: identicalKernel_def)
  have next2: "at (edges ?outer) (int (Suc 2 mod length (edges ?outer))) = Inr (GreatCircleEdge (2, 1))"
      "edgemap wheelSecond (GreatCircleEdge (0, 2)) = Some (3, 4)"
      "at (nodes wheelSecond) (node1 (GreatCircleEdge (2, 1))) = Inr ''p''"
    by (simp_all add: identical_defs at_def)
  have kernel2: "\<not> AreNodesEqual identicalKernel ''e1'' ''h''
      \<and> AreNodesEqual identicalKernel ''e1'' ''e1''
      \<and> FindFaceNearNodeIx identicalKernel wheelSecond (node1 (GreatCircleEdge (0, 2))) ''p''
          (type (GreatCircleEdge (2, 1))) = 4"
    by (simp add: identicalKernel_def)
  note second = TraceStep_face_does_not_change [OF hub scan2 edge2 u2 eq2 next2
      disjI2 [OF disjI1 [OF kernel2]],
      where vecSecondNodeMap = "[0, 1, 2, 3, 4, 5, 6]" and ixCurrentFirstFace = 0
        and nodeFirstEnd = "''e1''" and ixOverlapNodeCurrent = 3 and tracedPath = "[]"
        and out = "[]"]
  have sector: "at (faces wheelSecond) 3 = Inr ?sector"
    by (simp add: tee_defs at_def)
  have scan3: "ScanSecondFace teeKernel (nodes teeOverlap) (nodes wheelSecond)
      (GreatCircleEdge (0, 1)) ''FA'' (edges ?sector) 0 False [] = Inr (False, [''T''], Some 2)"
    by (simp add: tee_defs at_def)
  have edge3: "at (edges ?sector) (int 2) = Inr (GreatCircleEdge (1, 2))"
    by (simp add: tee_defs at_def)
  have u3: "at (nodes wheelSecond) (node0 (GreatCircleEdge (1, 2))) = Inr ''p''"
      "at (nodes wheelSecond) (node1 (GreatCircleEdge (1, 2))) = Inr ''e1''"
      "at (nodes teeOverlap) (node1 (GreatCircleEdge (0, 1))) = Inr ''T''"
    by (simp_all add: tee_defs at_def)
  have eq3: "AreNodesEqual teeKernel ''T'' ''T''"
    by (simp add: teeKernel_def)
  have next3: "at (edges ?tee) (int (Suc 0 mod length (edges ?tee))) = Inr (GreatCircleEdge (1, 2))"
      "edgemap wheelSecond (GreatCircleEdge (1, 2)) = Some (0, 3)"
      "at (nodes teeFirst) (node1 (GreatCircleEdge (1, 2))) = Inr ''FC''"
    by (simp_all add: tee_defs at_def)
  have kernel3: "\<not> AreNodesEqual teeKernel ''T'' ''p'' \<and> \<not> AreNodesEqual teeKernel ''T'' ''e1''
      \<and> EdgeFindFaceStruct wheelSecond (0, 3) (GreatCircleEdge (1, 2))
          = Inr \<lparr>vecFaceIndices = [0, 3], vecFaceLocations = [0, 2], loc = NodeLocation_Edge\<rparr>
      \<and> at (nodes teeFirst) (node0 (GreatCircleEdge (1, 2))) = Inr ''T''
      \<and> FindFaceNearNode teeKernel wheelSecond ''T'' ''FC'' (type (GreatCircleEdge (1, 2)))
          \<lparr>vecFaceIndices = [0, 3], vecFaceLocations = [0, 2], loc = NodeLocation_Edge\<rparr> = 3"
    by (simp add: tee_defs at_def EdgeFindFaceStruct_def GetEdgeIndex_def Edge_eq_def)
  note third = TraceStep_face_does_not_change [OF sector scan3 edge3 u3 eq3 next3
      disjI2 [OF disjI2 [OF kernel3]],
      where vecSecondNodeMap = "[3, 4, 5, 6, 7, 8, 9]" and ixCurrentFirstFace = 0
        and nodeFirstEnd = "''T''" and ixOverlapNodeCurrent = 0 and tracedPath = "[]"
        and out = "[]"]
  from first second third eq show ?thesis
    by (simp add: GreatCircleEdge_def identicalKernel_def teeKernel_def)
qed

subsection \<open>The loop that traces the first edge of the square\<close>


subsection \<open>The tracer along a strip\<close>



lemma strip_index_simps [simp]:
  "(stripBottom k = stripBottom l) = (k = l)"
  "(stripTop k = stripTop l) = (k = l)"
  "stripBottom k \<noteq> stripTop l"
  "stripTop k \<noteq> stripBottom l"
  by (simp_all add: stripBottom_def stripTop_def) presburger+














end
